theory Spec2Isabelle
  imports Main "HOL-Library.Multiset"
begin

section \<open>gfdashsync: the Gitlab syncer of main.go\<close>

text \<open>
  The development embeds the reconciliation code of \<^verbatim>\<open>main.go\<close>: the types
  \<^verbatim>\<open>File\<close>, \<^verbatim>\<open>History\<close> and \<^verbatim>\<open>Gitlab\<close>, and the functions \<^verbatim>\<open>moved\<close>,
  \<^verbatim>\<open>modified\<close>, \<^verbatim>\<open>NewGitlab\<close>, \<^verbatim>\<open>parseHistory\<close>, \<^verbatim>\<open>Add\<close>, \<^verbatim>\<open>add\<close>,
  \<^verbatim>\<open>updateHistory\<close>, \<^verbatim>\<open>deleteOrphans\<close> and \<^verbatim>\<open>Commit\<close>.

  Conventions of the embedding.
  \<^item> Go strings and byte slices are \<open>string\<close> (lists of bytes).
  \<^item> A Go pointer field of the go-gitlab option structs is an \<open>option\<close>: \<open>None\<close> is nil.
  \<^item> The methods mutate the receiver; here they take the \<open>Gitlab\<close> value and return
    the new one.
  \<^item> \<^verbatim>\<open>History\<close> is \<^verbatim>\<open>map[string]*File\<close>. It is a map from keys to \<open>File\<close> values:
    every entry is a non-nil pointer and no two keys hold the same pointer, which is
    what \<^verbatim>\<open>main\<close> and the JSON decoder of a well-formed history file produce.
    Storing the pointer \<^verbatim>\<open>in\<close> under a key therefore stores the blob itself, with the
    \<^verbatim>\<open>processed\<close> flag that \<^verbatim>\<open>add\<close> has just set on it.
  \<^item> The calls that leave the repository (the Gitlab client, \<^verbatim>\<open>encoding/json\<close>,
    \<^verbatim>\<open>encoding/base64\<close>) are parameters of the functions that make them, so every
    theorem holds for whatever these calls return.
  \<^item> Go does not fix the order in which \<^verbatim>\<open>range\<close> visits a map. The loop of
    \<^verbatim>\<open>deleteOrphans\<close> takes the order of the visit as a parameter.
\<close>

subsection \<open>Errors\<close>

datatype error =
    ExternalError string
  | Wrapped string error

subsection \<open>The go-gitlab types the program uses\<close>

datatype FileActionValue = FileCreate | FileDelete | FileMove | FileUpdate | FileChmod

record CommitActionOptions =
  Action :: "FileActionValue option"
  FilePath :: "string option"
  PreviousPath :: "string option"
  Content :: "string option"

record CreateCommitOptions =
  Branch :: "string option"
  CommitMessage :: "string option"
  Actions :: "CommitActionOptions list"

text \<open>
  The client is known to the program only through its calls. Its model is the log of
  the \<^verbatim>\<open>CreateCommit\<close> requests sent through it, each with the project id.
\<close>

record Client =
  requests :: "(int \<times> CreateCommitOptions) list"

record Response =
  StatusCode :: int

text \<open>
  What \<^verbatim>\<open>RepositoryFiles.GetFile\<close> returns: the file (of which the program reads
  the \<^verbatim>\<open>Content\<close> field only) with a nil error, or an error with a response that
  may be nil.
\<close>

datatype GetFileResult =
    GetFileOK string
  | GetFileFailed "Response option" error

definition StatusNotFound :: int where
  "StatusNotFound = 404"

subsection \<open>File and History\<close>

record File =
  UID :: string
  Path :: string
  SHA256 :: string
  content :: string
  processed :: bool

type_synonym History = "string \<rightharpoonup> File"

definition moved :: "File \<Rightarrow> File \<Rightarrow> bool" where
  "moved f hf = ((Path f \<noteq> Path hf) \<and> (UID f = UID hf) \<and> (SHA256 f \<noteq> SHA256 hf))"

definition modified :: "File \<Rightarrow> File \<Rightarrow> bool" where
  "modified f hf = ((Path f = Path hf) \<and> (UID f = UID hf) \<and> (SHA256 f \<noteq> SHA256 hf))"

subsection \<open>Gitlab\<close>

record Gitlab =
  client :: Client
  pid :: int
  branch :: string
  history :: History
  historyFile :: string
  historyAction :: FileActionValue
  actions :: "CommitActionOptions list"

text \<open>
  \<^verbatim>\<open>parseHistory\<close>. \<open>GetFile\<close>, \<open>DecodeString\<close> and \<open>Unmarshal\<close> are the three
  calls it makes; \<open>Unmarshal\<close> is given the map it decodes into.
\<close>

definition parseHistory ::
  "(int \<Rightarrow> string \<Rightarrow> string \<Rightarrow> GetFileResult) \<Rightarrow> (string \<Rightarrow> error + string) \<Rightarrow>
   (string \<Rightarrow> History \<Rightarrow> error + History) \<Rightarrow> Gitlab \<Rightarrow> error + Gitlab" where
  "parseHistory GetFile DecodeString Unmarshal g =
     (case GetFile (pid g) (historyFile g) (branch g) of
        GetFileFailed resp err \<Rightarrow>
          (case resp of
             Some r \<Rightarrow>
               if StatusCode r = StatusNotFound
               then Inr (g\<lparr>historyAction := FileCreate\<rparr>)
               else Inl err
           | None \<Rightarrow> Inl err)
      | GetFileOK c \<Rightarrow>
          (case DecodeString c of
             Inl err \<Rightarrow> Inl err
           | Inr data \<Rightarrow>
               (case Unmarshal data (history g) of
                  Inl err \<Rightarrow> Inl err
                | Inr h \<Rightarrow> Inr (g\<lparr>history := h\<rparr>))))"

definition NewGitlab ::
  "(string \<Rightarrow> string \<Rightarrow> error + Client) \<Rightarrow>
   (int \<Rightarrow> string \<Rightarrow> string \<Rightarrow> GetFileResult) \<Rightarrow> (string \<Rightarrow> error + string) \<Rightarrow>
   (string \<Rightarrow> History \<Rightarrow> error + History) \<Rightarrow>
   string \<Rightarrow> string \<Rightarrow> string \<Rightarrow> int \<Rightarrow> error + Gitlab" where
  "NewGitlab NewClient GetFile DecodeString Unmarshal baseURL token br p =
     (case NewClient token baseURL of
        Inl err \<Rightarrow> Inl (Wrapped ''gitlab: error creating client'' err)
      | Inr c \<Rightarrow>
          (case parseHistory GetFile DecodeString Unmarshal
                  \<lparr>client = c, pid = p, branch = br, history = Map.empty,
                   historyFile = ''history.json'', historyAction = FileUpdate,
                   actions = []\<rparr> of
             Inl err \<Rightarrow> Inl (Wrapped ''gitlab: error parsing history'' err)
           | Inr g \<Rightarrow> Inr g))"

text \<open>\<^verbatim>\<open>add\<close>: the blob is marked, the action appended, the blob stored.\<close>

definition add :: "File \<Rightarrow> FileActionValue \<Rightarrow> string \<Rightarrow> Gitlab \<Rightarrow> Gitlab" where
  "add f action prevPath g =
     (let f' = f\<lparr>processed := True\<rparr>;
          opt = \<lparr>Action = Some action, FilePath = Some (Path f'),
                 PreviousPath = None, Content = Some (content f')\<rparr>;
          opt' = (if prevPath \<noteq> [] then opt\<lparr>PreviousPath := Some prevPath\<rparr> else opt)
      in g\<lparr>actions := actions g @ [opt'], history := (history g)(UID f' \<mapsto> f')\<rparr>)"

text \<open>\<^verbatim>\<open>Add\<close>: the lookup, then the switch in the order of the source.\<close>

definition Add :: "File \<Rightarrow> Gitlab \<Rightarrow> Gitlab" where
  "Add f g =
     (case history g (UID f) of
        None \<Rightarrow> add f FileCreate [] g
      | Some hf \<Rightarrow>
          if moved f hf then add f FileMove (Path hf) g
          else if modified f hf then add f FileUpdate [] g
          else g\<lparr>history := (history g)(UID f \<mapsto> hf\<lparr>processed := True\<rparr>)\<rparr>)"

text \<open>
  \<^verbatim>\<open>updateHistory\<close>. \<open>Marshal\<close> is \<^verbatim>\<open>json.Marshal\<close> on the history map.
\<close>

definition updateHistory :: "(History \<Rightarrow> error + string) \<Rightarrow> Gitlab \<Rightarrow> error + Gitlab" where
  "updateHistory Marshal g =
     (if history g = Map.empty then Inr g
      else (case Marshal (history g) of
              Inl err \<Rightarrow> Inl err
            | Inr data \<Rightarrow>
                Inr (g\<lparr>actions := actions g @
                         [\<lparr>Action = Some (historyAction g), FilePath = Some (historyFile g),
                           PreviousPath = None, Content = Some data\<rparr>]\<rparr>)))"

text \<open>
  \<^verbatim>\<open>deleteOrphans\<close>. The list is the order in which the \<^verbatim>\<open>range\<close> loop visits the
  keys the map has when the loop starts. A key whose entry was deleted before the loop
  reaches it is not produced, as the Go specification says. The entry deleted is the
  one under the key \<^verbatim>\<open>f.UID\<close>.
\<close>

fun deleteOrphans :: "string list \<Rightarrow> Gitlab \<Rightarrow> Gitlab" where
  "deleteOrphans [] g = g"
| "deleteOrphans (k # ks) g =
     (case history g k of
        None \<Rightarrow> deleteOrphans ks g
      | Some f \<Rightarrow>
          if processed f then deleteOrphans ks g
          else deleteOrphans ks
                 (g\<lparr>actions := actions g @
                       [\<lparr>Action = Some FileDelete, FilePath = Some (Path f),
                         PreviousPath = None, Content = None\<rparr>],
                    history := (history g)(UID f := None)\<rparr>))"

text \<open>
  The commit message of the source, \<^verbatim>\<open>: backup done.\<close> after five characters
  outside ASCII, as the bytes of its UTF-8 encoding.
\<close>

definition backupMessage :: string where
  "backupMessage =
     [CHR 0xCA, CHR 0x95, CHR 0xE2, CHR 0x97, CHR 0x94, CHR 0xCF, CHR 0x96,
      CHR 0xE2, CHR 0x97, CHR 0x94, CHR 0xCA, CHR 0x94] @ '': backup done.''"

text \<open>
  \<^verbatim>\<open>Commit\<close>. \<open>order\<close> is the order of the visit of \<^verbatim>\<open>deleteOrphans\<close>,
  \<open>CreateCommit\<close> is the answer of the server to the request. The result is the
  error returned (\<open>None\<close> is nil) and the new state; a request that was sent is in the
  log of the client.
\<close>

definition Commit ::
  "string list \<Rightarrow> (History \<Rightarrow> error + string) \<Rightarrow> (int \<Rightarrow> CreateCommitOptions \<Rightarrow> error option) \<Rightarrow>
   Gitlab \<Rightarrow> error option \<times> Gitlab" where
  "Commit order Marshal CreateCommit g =
     (let g1 = deleteOrphans order g in
      if actions g1 = [] then (None, g1)
      else (case updateHistory Marshal g1 of
              Inl err \<Rightarrow> (Some err, g1)
            | Inr g2 \<Rightarrow>
                (let opt = \<lparr>Branch = Some (branch g2), CommitMessage = Some backupMessage,
                            Actions = actions g2\<rparr>;
                     g3 = g2\<lparr>client := (client g2)\<lparr>requests := requests (client g2) @ [(pid g2, opt)]\<rparr>\<rparr>
                 in (case CreateCommit (pid g2) opt of
                       Some err \<Rightarrow> (Some (Wrapped ''gitlab: commit error'' err), g3)
                     | None \<Rightarrow> (None, g3)))))"

text \<open>The loop of \<^verbatim>\<open>main\<close> over the dashboards that were fetched: one \<^verbatim>\<open>Add\<close> each.\<close>

fun AddAll :: "File list \<Rightarrow> Gitlab \<Rightarrow> Gitlab" where
  "AddAll [] g = g"
| "AddAll (f # fs) g = AddAll fs (Add f g)"

subsection \<open>What is persisted, and the specification of the orphan sweep\<close>

text \<open>
  The declaration of \<^verbatim>\<open>File\<close> gives JSON names to \<^verbatim>\<open>UID\<close>, \<^verbatim>\<open>Path\<close> and
  \<^verbatim>\<open>SHA256\<close>; \<^verbatim>\<open>content\<close> and \<^verbatim>\<open>processed\<close> are unexported fields, which
  \<^verbatim>\<open>encoding/json\<close> neither writes nor reads. \<open>persisted\<close> is the projection of a
  record on the three named fields, and \<open>persistedHistory\<close> that of a history, key by
  key. It is a projection only: whether the history file, once written by
  \<^verbatim>\<open>json.Marshal\<close> and read by \<^verbatim>\<open>json.Unmarshal\<close>, gives this map back depends on
  the encoder (it replaces bytes that are not valid UTF-8), and a theorem that needs it
  says so in a hypothesis on \<open>Marshal\<close> and \<open>Unmarshal\<close>.
\<close>

definition persisted :: "File \<Rightarrow> File" where
  "persisted f = f\<lparr>content := [], processed := False\<rparr>"

definition persistedHistory :: "History \<Rightarrow> History" where
  "persistedHistory h = (\<lambda>k. map_option persisted (h k))"

text \<open>
  Two runs in succession meet in the history file of the repository. The program writes
  that file through the action that \<^verbatim>\<open>updateHistory\<close> appends, the last of the batch,
  and through nothing else; the server applies the batch of an accepted request as a
  whole, and nothing else changes the file between the two runs. \<open>historyWritten\<close> is
  the text a run has written to the file, if any: \<open>g\<close> is the syncer as \<open>NewGitlab\<close>
  returned it and \<open>r\<close> the result of \<open>Commit\<close>. A text was written when \<open>Commit\<close>
  returned nil, a request was sent, and the last action of its batch is on the path of
  the history file. \<open>nextHistory\<close> is the history the next run loads: the written text
  as \<^verbatim>\<open>parseHistory\<close> decodes it into an empty map, or, when nothing was written, the
  history that this run has loaded from the same file.
\<close>

definition historyWritten :: "Gitlab \<Rightarrow> error option \<times> Gitlab \<Rightarrow> string option" where
  "historyWritten g r =
     (if fst r = None \<and> length (requests (client g)) < length (requests (client (snd r)))
      then (let batch = Actions (snd (last (requests (client (snd r))))) in
            if batch \<noteq> [] \<and> FilePath (last batch) = Some (historyFile g)
            then Content (last batch) else None)
      else None)"

definition nextHistory ::
  "(string \<Rightarrow> History \<Rightarrow> error + History) \<Rightarrow> Gitlab \<Rightarrow> error option \<times> Gitlab \<Rightarrow>
   error + History" where
  "nextHistory Unmarshal g r =
     (case historyWritten g r of
        None \<Rightarrow> Inr (history g)
      | Some data \<Rightarrow> Unmarshal data Map.empty)"

text \<open>
  A history in which every record is stored under its own \<^verbatim>\<open>UID\<close>. The empty
  history is one, \<^verbatim>\<open>add\<close> stores a blob under its \<^verbatim>\<open>UID\<close>, and the history file
  of the program is written from such a map.
\<close>

definition wf_History :: "History \<Rightarrow> bool" where
  "wf_History h = (\<forall>k f. h k = Some f \<longrightarrow> UID f = k)"

text \<open>
  The specification of the sweep, to compare \<open>deleteOrphans\<close> with: one Delete action
  for each record that is not processed, in the order of the visit, and the history
  that keeps the processed records only.
\<close>

fun sweepDeletes :: "History \<Rightarrow> string list \<Rightarrow> CommitActionOptions list" where
  "sweepDeletes h [] = []"
| "sweepDeletes h (k # ks) =
     (case h k of
        None \<Rightarrow> []
      | Some f \<Rightarrow>
          if processed f then []
          else [\<lparr>Action = Some FileDelete, FilePath = Some (Path f),
                 PreviousPath = None, Content = None\<rparr>]) @ sweepDeletes h ks"

definition sweepHistory :: "History \<Rightarrow> History" where
  "sweepHistory h =
     (\<lambda>k. case h k of None \<Rightarrow> None | Some f \<Rightarrow> if processed f then Some f else None)"

subsection \<open>Values for concrete runs\<close>

text \<open>
  The values of the tests of the repository: a blob without content, and the syncer
  that \<^verbatim>\<open>MustGitlab\<close> builds (project 1, branch \<^verbatim>\<open>test\<close>) with a given history
  and history action. \<open>answerMarshal\<close> is an encoder that answers with a given text,
  \<open>answerUnmarshal\<close> a decoder that answers with a given history and \<open>commitOK\<close> a
  server that accepts every commit; they stand for the three calls in concrete runs.
\<close>

definition testFile :: "string \<Rightarrow> string \<Rightarrow> string \<Rightarrow> File" where
  "testFile u p s = \<lparr>UID = u, Path = p, SHA256 = s, content = [], processed = False\<rparr>"

definition testGitlab :: "History \<Rightarrow> FileActionValue \<Rightarrow> Gitlab" where
  "testGitlab h a =
     \<lparr>client = \<lparr>requests = []\<rparr>, pid = 1, branch = ''test'', history = h,
      historyFile = ''history.json'', historyAction = a, actions = []\<rparr>"

definition answerMarshal :: "string \<Rightarrow> History \<Rightarrow> error + string" where
  "answerMarshal s h = Inr s"

definition answerUnmarshal :: "History \<Rightarrow> string \<Rightarrow> History \<Rightarrow> error + History" where
  "answerUnmarshal h data m = Inr h"

definition commitOK :: "int \<Rightarrow> CreateCommitOptions \<Rightarrow> error option" where
  "commitOK p opt = None"

section \<open>Basic facts\<close>

lemma history_add: "history (add f a p g) = (history g)(UID f \<mapsto> f\<lparr>processed := True\<rparr>)"
  by (simp add: add_def Let_def)

lemma actions_add:
  "actions (add f a p g) = actions g @
     [\<lparr>Action = Some a, FilePath = Some (Path f),
       PreviousPath = (if p = [] then None else Some p), Content = Some (content f)\<rparr>]"
  by (simp add: add_def Let_def)

lemma add_frame:
  "client (add f a p g) = client g \<and> pid (add f a p g) = pid g \<and>
   branch (add f a p g) = branch g \<and> historyFile (add f a p g) = historyFile g \<and>
   historyAction (add f a p g) = historyAction g"
  by (simp add: add_def Let_def)

lemma Add_frame:
  "client (Add f g) = client g \<and> pid (Add f g) = pid g \<and> branch (Add f g) = branch g \<and>
   historyFile (Add f g) = historyFile g \<and> historyAction (Add f g) = historyAction g"
  by (simp add: Add_def add_frame split: option.splits)

lemma AddAll_frame:
  "client (AddAll fs g) = client g \<and> pid (AddAll fs g) = pid g \<and>
   branch (AddAll fs g) = branch g \<and> historyFile (AddAll fs g) = historyFile g \<and>
   historyAction (AddAll fs g) = historyAction g"
  by (induction fs arbitrary: g) (simp_all add: Add_frame)

lemma deleteOrphans_frame:
  "client (deleteOrphans ks g) = client g \<and> pid (deleteOrphans ks g) = pid g \<and>
   branch (deleteOrphans ks g) = branch g \<and>
   historyFile (deleteOrphans ks g) = historyFile g \<and>
   historyAction (deleteOrphans ks g) = historyAction g"
  by (induction ks arbitrary: g) (auto split: option.splits)

subsection \<open>Records stay under their own UID\<close>

lemma wf_History_empty: "wf_History Map.empty"
  by (simp add: wf_History_def)

lemma wf_History_add: "wf_History (history g) \<Longrightarrow> wf_History (history (add f a p g))"
  by (simp add: wf_History_def history_add)

lemma wf_History_Add: "wf_History (history g) \<Longrightarrow> wf_History (history (Add f g))"
  by (auto simp add: wf_History_def Add_def history_add split: option.splits)

lemma wf_History_AddAll: "wf_History (history g) \<Longrightarrow> wf_History (history (AddAll fs g))"
  by (induction fs arbitrary: g) (simp_all add: wf_History_Add)

lemma wf_History_persistedHistory: "wf_History h \<Longrightarrow> wf_History (persistedHistory h)"
  by (auto simp add: wf_History_def persistedHistory_def persisted_def)

lemma wf_History_delete: "wf_History h \<Longrightarrow> wf_History (h(k := None))"
  by (simp add: wf_History_def)

subsection \<open>The sweep against its specification\<close>

lemma sweepDeletes_cong:
  "(\<And>k. k \<in> set ks \<Longrightarrow> h k = h' k) \<Longrightarrow> sweepDeletes h ks = sweepDeletes h' ks"
  by (induction ks) simp_all

lemma deleteOrphans_wf:
  assumes "wf_History (history g)" and "distinct ks"
  shows "actions (deleteOrphans ks g) = actions g @ sweepDeletes (history g) ks \<and>
         history (deleteOrphans ks g) =
           (\<lambda>k. if k \<in> set ks then sweepHistory (history g) k else history g k)"
  using assms
proof (induction ks arbitrary: g)
  case Nil
  then show ?case by simp
next
  case (Cons k ks)
  show ?case
  proof (cases "history g k")
    case None
    with Cons show ?thesis by (auto simp add: fun_eq_iff sweepHistory_def)
  next
    case (Some f)
    show ?thesis
    proof (cases "processed f")
      case True
      with Some Cons show ?thesis by (auto simp add: fun_eq_iff sweepHistory_def)
    next
      case False
      from Cons.prems Some have uid: "UID f = k" by (simp add: wf_History_def)
      let ?g = "g\<lparr>actions := actions g @
                       [\<lparr>Action = Some FileDelete, FilePath = Some (Path f),
                         PreviousPath = None, Content = None\<rparr>],
                    history := (history g)(k := None)\<rparr>"
      have step: "deleteOrphans (k # ks) g = deleteOrphans ks ?g"
        using Some False uid by simp
      have wf: "wf_History (history ?g)"
        using Cons.prems by (simp add: wf_History_delete)
      have same: "\<And>x. x \<in> set ks \<Longrightarrow> history ?g x = history g x"
        using Cons.prems by auto
      have del: "sweepDeletes (history ?g) ks = sweepDeletes (history g) ks"
        by (rule sweepDeletes_cong) (rule same)
      from Cons.prems have d: "distinct ks" by simp
      note ih1 = Cons.IH [OF wf d, THEN conjunct1]
      note ih2 = Cons.IH [OF wf d, THEN conjunct2]
      have a1: "actions (deleteOrphans (k # ks) g) = actions g @ sweepDeletes (history g) (k # ks)"
        unfolding step ih1 del using Some False by simp
      have a2: "history (deleteOrphans (k # ks) g) =
           (\<lambda>x. if x \<in> set (k # ks) then sweepHistory (history g) x else history g x)"
        unfolding step ih2 using Some False by (auto simp add: fun_eq_iff sweepHistory_def)
      from a1 a2 show ?thesis by simp
    qed
  qed
qed

lemma deleteOrphans_keeps_processed:
  assumes "wf_History (history g)" and "history g k = Some f" and "processed f"
  shows "history (deleteOrphans ks g) k = Some f"
  using assms
proof (induction ks arbitrary: g)
  case Nil
  then show ?case by simp
next
  case (Cons x ks)
  show ?case
  proof (cases "history g x")
    case None
    with Cons show ?thesis by simp
  next
    case (Some fx)
    show ?thesis
    proof (cases "processed fx")
      case True
      with Some Cons show ?thesis by simp
    next
      case False
      from Cons.prems Some have uid: "UID fx = x" by (simp add: wf_History_def)
      from False Some Cons.prems have ne: "x \<noteq> k" by auto
      let ?g = "g\<lparr>actions := actions g @
                       [\<lparr>Action = Some FileDelete, FilePath = Some (Path fx),
                         PreviousPath = None, Content = None\<rparr>],
                    history := (history g)(x := None)\<rparr>"
      have "history (deleteOrphans ks ?g) k = Some f"
        using Cons.prems ne by (intro Cons.IH) (simp_all add: wf_History_def)
      then show ?thesis using Some False uid by simp
    qed
  qed
qed

lemma sweepDeletes_length:
  "distinct ks \<Longrightarrow>
   length (sweepDeletes h ks) = card {k \<in> set ks. \<exists>f. h k = Some f \<and> \<not> processed f}"
proof (induction ks)
  case Nil
  then show ?case by simp
next
  case (Cons k ks)
  have split: "{x \<in> set (k # ks). \<exists>f. h x = Some f \<and> \<not> processed f} =
        (if \<exists>f. h k = Some f \<and> \<not> processed f then {k} else {}) \<union>
        {x \<in> set ks. \<exists>f. h x = Some f \<and> \<not> processed f}"
    by auto
  have fin: "finite {x \<in> set ks. \<exists>f. h x = Some f \<and> \<not> processed f}" by simp
  have notin: "k \<notin> {x \<in> set ks. \<exists>f. h x = Some f \<and> \<not> processed f}"
    using Cons.prems by simp
  show ?case
    unfolding split using Cons fin notin by (auto split: option.splits)
qed

subsection \<open>What the adds leave processed\<close>

lemma Add_processed: "\<exists>r. history (Add b g) (UID b) = Some r \<and> processed r"
  by (simp add: Add_def history_add split: option.splits)

lemma AddAll_last_processed:
  "fs \<noteq> [] \<Longrightarrow> \<exists>r. history (AddAll fs g) (UID (last fs)) = Some r \<and> processed r"
proof (induction fs arbitrary: g)
  case Nil
  then show ?case by simp
next
  case (Cons f fs)
  show ?case
  proof (cases "fs = []")
    case True
    then show ?thesis using Add_processed [of f g] by simp
  next
    case False
    then show ?thesis using Cons.IH [of "Add f g"] by simp
  qed
qed

lemma mset_sweepDeletes:
  "mset (sweepDeletes h ks) = (\<Sum>k\<in>#mset ks. mset (sweepDeletes h [k]))"
  by (induction ks) simp_all

lemma sweepDeletes_perm:
  "mset ks = mset ks' \<Longrightarrow> mset (sweepDeletes h ks) = mset (sweepDeletes h ks')"
  by (simp add: mset_sweepDeletes [of h ks] mset_sweepDeletes [of h ks'])

lemma sweepDeletes_all_Delete:
  "a \<in> set (sweepDeletes h ks) \<Longrightarrow> Action a = Some FileDelete"
  by (induction ks) (auto split: option.splits if_splits)

subsection \<open>The result of Commit\<close>

lemma deleteOrphans_all_keys:
  assumes "wf_History (history g)" and "distinct ks" and "set ks = dom (history g)"
  shows "history (deleteOrphans ks g) = sweepHistory (history g)"
  unfolding deleteOrphans_wf [OF assms(1) assms(2), THEN conjunct2]
  using assms(3) by (auto simp add: fun_eq_iff sweepHistory_def)

lemma Commit_actions:
  "actions (snd (Commit order Marshal CreateCommit g)) =
     (let g1 = deleteOrphans order g in
      if actions g1 = [] \<or> history g1 = Map.empty then actions g1
      else (case Marshal (history g1) of
              Inl err \<Rightarrow> actions g1
            | Inr data \<Rightarrow>
                actions g1 @
                [\<lparr>Action = Some (historyAction g), FilePath = Some (historyFile g),
                  PreviousPath = None, Content = Some data\<rparr>]))"
  by (simp add: Commit_def updateHistory_def Let_def deleteOrphans_frame
           split: sum.splits option.splits)

lemma Commit_actions_appended:
  assumes "actions (deleteOrphans order g) \<noteq> []"
    and "history (deleteOrphans order g) \<noteq> Map.empty"
    and "Marshal (history (deleteOrphans order g)) = Inr data"
  shows "actions (snd (Commit order Marshal CreateCommit g)) =
           actions (deleteOrphans order g) @
           [\<lparr>Action = Some (historyAction g), FilePath = Some (historyFile g),
             PreviousPath = None, Content = Some data\<rparr>]"
  using assms by (simp add: Commit_actions Let_def)

lemma Commit_history:
  "history (snd (Commit order Marshal CreateCommit g)) = history (deleteOrphans order g)"
  by (simp add: Commit_def updateHistory_def Let_def split: sum.splits option.splits)

lemma Commit_nothing:
  "actions (deleteOrphans order g) = [] \<Longrightarrow>
   Commit order Marshal CreateCommit g = (None, deleteOrphans order g)"
  by (simp add: Commit_def)

lemma Commit_requests:
  "requests (client (snd (Commit order Marshal CreateCommit g))) =
     (let g1 = deleteOrphans order g in
      if actions g1 = [] \<or> (history g1 \<noteq> Map.empty \<and> isl (Marshal (history g1)))
      then requests (client g)
      else requests (client g) @
             [(pid g, \<lparr>Branch = Some (branch g), CommitMessage = Some backupMessage,
                       Actions = actions (snd (Commit order Marshal CreateCommit g))\<rparr>)])"
  by (simp add: Commit_def updateHistory_def Let_def deleteOrphans_frame
           split: sum.splits option.splits)

subsection \<open>What the adds do to the fingerprints\<close>

lemma Add_other_keys: "k \<noteq> UID b \<Longrightarrow> history (Add b g) k = history g k"
  by (simp add: Add_def history_add split: option.splits)

lemma AddAll_other_keys: "k \<notin> UID ` set fs \<Longrightarrow> history (AddAll fs g) k = history g k"
  by (induction fs arbitrary: g) (simp_all add: Add_other_keys)

lemma Add_same_fingerprint:
  assumes "history g (UID b) = Some hf" and "SHA256 hf = SHA256 b"
  shows "Add b g = g\<lparr>history := (history g)(UID b \<mapsto> hf\<lparr>processed := True\<rparr>)\<rparr>"
  using assms by (simp add: Add_def moved_def modified_def)

lemma Add_fingerprint:
  assumes "wf_History (history g)"
  shows "\<exists>r. history (Add b g) (UID b) = Some r \<and> SHA256 r = SHA256 b \<and> processed r"
proof (cases "history g (UID b)")
  case None
  then show ?thesis by (simp add: Add_def history_add)
next
  case (Some hf)
  with assms have "UID hf = UID b" by (simp add: wf_History_def)
  with Some show ?thesis
    by (auto simp add: Add_def history_add moved_def modified_def)
qed

lemma AddAll_fingerprint:
  assumes "wf_History (history g)" and "distinct (map UID fs)" and "b \<in> set fs"
  shows "\<exists>r. history (AddAll fs g) (UID b) = Some r \<and> SHA256 r = SHA256 b \<and> processed r"
  using assms
proof (induction fs arbitrary: g)
  case Nil
  then show ?case by simp
next
  case (Cons f fs)
  have wf: "wf_History (history (Add f g))" using Cons.prems(1) by (rule wf_History_Add)
  show ?case
  proof (cases "b \<in> set fs")
    case True
    with Cons.IH [OF wf] Cons.prems show ?thesis by simp
  next
    case False
    with Cons.prems have b: "b = f" by simp
    from Cons.prems(2) have "UID f \<notin> UID ` set fs" by simp
    then have "history (AddAll fs (Add f g)) (UID f) = history (Add f g) (UID f)"
      by (rule AddAll_other_keys)
    with Add_fingerprint [OF Cons.prems(1), of f] b show ?thesis by simp
  qed
qed

lemma AddAll_same_fingerprints:
  assumes "\<forall>b \<in> set fs. \<exists>r. history g (UID b) = Some r \<and> SHA256 r = SHA256 b"
  shows "actions (AddAll fs g) = actions g \<and>
         (\<forall>k. history (AddAll fs g) k =
               (if k \<in> UID ` set fs
                then map_option (\<lambda>r. r\<lparr>processed := True\<rparr>) (history g k)
                else history g k))"
  using assms
proof (induction fs arbitrary: g)
  case Nil
  then show ?case by simp
next
  case (Cons f fs)
  from Cons.prems obtain hf where hf: "history g (UID f) = Some hf" "SHA256 hf = SHA256 f"
    by auto
  let ?g = "g\<lparr>history := (history g)(UID f \<mapsto> hf\<lparr>processed := True\<rparr>)\<rparr>"
  have step: "Add f g = ?g" using hf by (rule Add_same_fingerprint)
  have pre: "\<forall>b \<in> set fs. \<exists>r. history ?g (UID b) = Some r \<and> SHA256 r = SHA256 b"
  proof
    fix b assume "b \<in> set fs"
    with Cons.prems obtain r where r: "history g (UID b) = Some r" "SHA256 r = SHA256 b"
      by auto
    show "\<exists>r. history ?g (UID b) = Some r \<and> SHA256 r = SHA256 b"
      using r hf by (cases "UID b = UID f") auto
  qed
  note ih = Cons.IH [OF pre]
  show ?case
    using ih hf by (auto simp add: step)
qed

lemma deleteOrphans_all_processed:
  "(\<And>k f. history g k = Some f \<Longrightarrow> processed f) \<Longrightarrow> deleteOrphans ks g = g"
  by (induction ks) (auto split: option.splits)
subsection \<open>Runs that append nothing, and what a run writes\<close>

lemma actions_Add_prefix: "\<exists>as. actions (Add f g) = actions g @ as"
  by (simp add: Add_def actions_add split: option.splits)

lemma actions_AddAll_prefix: "\<exists>as. actions (AddAll fs g) = actions g @ as"
proof (induction fs arbitrary: g)
  case Nil
  then show ?case by simp
next
  case (Cons f fs)
  from actions_Add_prefix [of f g] obtain as1 where 1: "actions (Add f g) = actions g @ as1"
    by blast
  from Cons.IH [of "Add f g"] obtain as2
    where 2: "actions (AddAll fs (Add f g)) = actions (Add f g) @ as2"
    by blast
  from 1 2 show ?case by simp
qed

lemma Add_no_action:
  assumes "actions (Add f g) = actions g"
  shows "\<exists>hf. history g (UID f) = Some hf \<and>
              Add f g = g\<lparr>history := (history g)(UID f \<mapsto> hf\<lparr>processed := True\<rparr>)\<rparr>"
  using assms by (auto simp add: Add_def actions_add split: option.splits if_splits)

lemma persistedHistory_mark:
  "h k = Some hf \<Longrightarrow> persistedHistory (h(k \<mapsto> hf\<lparr>processed := True\<rparr>)) = persistedHistory h"
  by (auto simp add: persistedHistory_def persisted_def fun_eq_iff)

lemma AddAll_no_action:
  "actions (AddAll fs g) = actions g \<Longrightarrow>
   persistedHistory (history (AddAll fs g)) = persistedHistory (history g)"
proof (induction fs arbitrary: g)
  case Nil
  then show ?case by simp
next
  case (Cons f fs)
  from actions_Add_prefix [of f g] obtain as1 where 1: "actions (Add f g) = actions g @ as1"
    by blast
  from actions_AddAll_prefix [of fs "Add f g"] obtain as2
    where 2: "actions (AddAll fs (Add f g)) = actions (Add f g) @ as2"
    by blast
  from Cons.prems 1 2 have "as1 = []" and "as2 = []" by simp_all
  with 1 2 have a: "actions (Add f g) = actions g"
    and b: "actions (AddAll fs (Add f g)) = actions (Add f g)" by simp_all
  from Add_no_action [OF a] obtain hf where hf: "history g (UID f) = Some hf"
    and e: "Add f g = g\<lparr>history := (history g)(UID f \<mapsto> hf\<lparr>processed := True\<rparr>)\<rparr>"
    by blast
  have "persistedHistory (history (Add f g)) = persistedHistory (history g)"
    using hf by (simp add: e persistedHistory_mark)
  with Cons.IH [OF b] show ?case by simp
qed

lemma sweepDeletes_Nil_processed:
  "sweepDeletes h ks = [] \<Longrightarrow> k \<in> set ks \<Longrightarrow> h k = Some f \<Longrightarrow> processed f"
  by (induction ks) (auto split: option.splits if_splits)

lemma sweepDeletes_empty: "sweepDeletes Map.empty ks = []"
  by (induction ks) simp_all

lemma persistedHistory_idem: "persistedHistory (persistedHistory h) = persistedHistory h"
proof
  fix k
  show "persistedHistory (persistedHistory h) k = persistedHistory h k"
    by (cases "h k") (simp_all add: persistedHistory_def persisted_def)
qed

lemma historyWritten_nothing_sent:
  "actions (deleteOrphans order g) = [] \<Longrightarrow> client g0 = client g \<Longrightarrow>
   historyWritten g0 (Commit order Marshal CreateCommit g) = None"
  by (simp add: Commit_def historyWritten_def deleteOrphans_frame)

lemma historyWritten_sent:
  assumes "actions (deleteOrphans order g) \<noteq> []"
    and "history (deleteOrphans order g) \<noteq> Map.empty"
    and "fst (Commit order Marshal CreateCommit g) = None"
    and "client g0 = client g" and "historyFile g0 = historyFile g"
  shows "\<exists>data. Marshal (history (deleteOrphans order g)) = Inr data \<and>
                historyWritten g0 (Commit order Marshal CreateCommit g) = Some data"
  using assms
  by (auto simp add: Commit_def updateHistory_def historyWritten_def Let_def deleteOrphans_frame
        split: sum.splits option.splits)

section \<open>Add\<close>

text \<open>
  C6. A blob whose id is not a key of the history: \<open>Add\<close> appends exactly one action,
  a Create with the path and the content of the blob and no previous path, and stores
  the blob under its id, marked processed. Nothing else of the state changes.
\<close>

theorem Add_absent_creates:
  assumes "history g (UID b) = None"
  shows "Add b g =
           g\<lparr>actions := actions g @
                [\<lparr>Action = Some FileCreate, FilePath = Some (Path b),
                  PreviousPath = None, Content = Some (content b)\<rparr>],
             history := (history g)(UID b \<mapsto> b\<lparr>processed := True\<rparr>)\<rparr>"
  using assms by (simp add: Add_def add_def)

theorem Add_absent_creates_witness:
  "history (testGitlab Map.empty FileCreate)
     (UID (testFile ''go1'' ''/dev/null.json'' ''12345'')) = None \<and>
   Add (testFile ''go1'' ''/dev/null.json'' ''12345'') (testGitlab Map.empty FileCreate) =
     (testGitlab Map.empty FileCreate)\<lparr>actions :=
        [\<lparr>Action = Some FileCreate, FilePath = Some ''/dev/null.json'',
          PreviousPath = None, Content = Some []\<rparr>],
        history := [''go1'' \<mapsto> \<lparr>UID = ''go1'', Path = ''/dev/null.json'',
                     SHA256 = ''12345'', content = [], processed = True\<rparr>]\<rparr>"
  using Add_absent_creates [of "testGitlab Map.empty FileCreate"
                               "testFile ''go1'' ''/dev/null.json'' ''12345''"]
  by (simp add: testGitlab_def testFile_def)

text \<open>
  C3 (as amended). A blob whose id is a key of the history, for a record with that id,
  another path and another fingerprint: \<open>Add\<close> appends exactly one action, a Move to
  the path of the blob with the content of the blob, and overwrites the record with the
  blob, marked processed. The previous path of the action is the path of the record when
  that path is not the empty string; for the empty string \<^verbatim>\<open>add\<close> leaves the
  previous path unset.
\<close>

theorem Add_moved:
  assumes "history g (UID b) = Some hf" and "UID hf = UID b"
    and "Path hf \<noteq> Path b" and "SHA256 hf \<noteq> SHA256 b"
  shows "Add b g =
           g\<lparr>actions := actions g @
                [\<lparr>Action = Some FileMove, FilePath = Some (Path b),
                  PreviousPath = (if Path hf = [] then None else Some (Path hf)),
                  Content = Some (content b)\<rparr>],
             history := (history g)(UID b \<mapsto> b\<lparr>processed := True\<rparr>)\<rparr>"
  using assms by (auto simp add: Add_def add_def moved_def Let_def)

theorem Add_moved_witness:
  "Add (testFile ''go1'' ''null.json'' ''54321'')
       (testGitlab [''go1'' \<mapsto> testFile ''go1'' ''/dev/null.json'' ''12345''] FileUpdate) =
     (testGitlab [''go1'' \<mapsto> testFile ''go1'' ''/dev/null.json'' ''12345''] FileUpdate)
       \<lparr>actions :=
          [\<lparr>Action = Some FileMove, FilePath = Some ''null.json'',
            PreviousPath = Some ''/dev/null.json'', Content = Some []\<rparr>],
        history := [''go1'' \<mapsto> \<lparr>UID = ''go1'', Path = ''null.json'', SHA256 = ''54321'',
                     content = [], processed = True\<rparr>]\<rparr>"
  using Add_moved [of "testGitlab [''go1'' \<mapsto> testFile ''go1'' ''/dev/null.json'' ''12345''] FileUpdate"
                      "testFile ''go1'' ''null.json'' ''54321''"
                      "testFile ''go1'' ''/dev/null.json'' ''12345''"]
  by (simp add: testGitlab_def testFile_def)

theorem empty_stored_path_counterexample:
  "history (testGitlab [''go1'' \<mapsto> testFile ''go1'' [] ''12345''] FileUpdate)
           (UID (testFile ''go1'' ''/b.json'' ''54321'')) = Some (testFile ''go1'' [] ''12345'') \<and>
   Path (testFile ''go1'' [] ''12345'') \<noteq> Path (testFile ''go1'' ''/b.json'' ''54321'') \<and>
   SHA256 (testFile ''go1'' [] ''12345'') \<noteq> SHA256 (testFile ''go1'' ''/b.json'' ''54321'') \<and>
   actions (Add (testFile ''go1'' ''/b.json'' ''54321'')
                (testGitlab [''go1'' \<mapsto> testFile ''go1'' [] ''12345''] FileUpdate)) =
     [\<lparr>Action = Some FileMove, FilePath = Some ''/b.json'',
       PreviousPath = None, Content = Some []\<rparr>] \<and>
   PreviousPath (last (actions (Add (testFile ''go1'' ''/b.json'' ''54321'')
                (testGitlab [''go1'' \<mapsto> testFile ''go1'' [] ''12345''] FileUpdate))))
     \<noteq> Some (Path (testFile ''go1'' [] ''12345''))"
  by (simp add: Add_def add_def moved_def Let_def testGitlab_def testFile_def)

text \<open>
  C4. A blob whose id is a key of the history, for a record with the fingerprint of the
  blob, whatever the two paths are: \<open>Add\<close> appends no action and changes nothing but
  the processed flag of that record. In a history whose records are stored under their
  own id the sweep, in whatever order, then leaves the record in the history.
\<close>

theorem Add_unchanged:
  assumes "history g (UID b) = Some hf" and "SHA256 hf = SHA256 b"
  shows "Add b g = g\<lparr>history := (history g)(UID b \<mapsto> hf\<lparr>processed := True\<rparr>)\<rparr> \<and>
         actions (Add b g) = actions g \<and>
         (wf_History (history g) \<longrightarrow>
            (\<forall>order. history (deleteOrphans order (Add b g)) (UID b) = Some (hf\<lparr>processed := True\<rparr>)))"
proof -
  have eq: "Add b g = g\<lparr>history := (history g)(UID b \<mapsto> hf\<lparr>processed := True\<rparr>)\<rparr>"
    using assms by (simp add: Add_def moved_def modified_def)
  have keep: "history (deleteOrphans order (Add b g)) (UID b) = Some (hf\<lparr>processed := True\<rparr>)"
    if "wf_History (history g)" for order
  proof (rule deleteOrphans_keeps_processed)
    show "wf_History (history (Add b g))" using that by (rule wf_History_Add)
    show "history (Add b g) (UID b) = Some (hf\<lparr>processed := True\<rparr>)" by (simp add: eq)
    show "processed (hf\<lparr>processed := True\<rparr>)" by simp
  qed
  from eq keep show ?thesis by simp
qed

theorem Add_unchanged_witness:
  "Add (testFile ''go1'' ''/b.json'' ''12345'')
       (testGitlab [''go1'' \<mapsto> testFile ''go1'' ''/dev/null.json'' ''12345''] FileUpdate) =
     (testGitlab [''go1'' \<mapsto> testFile ''go1'' ''/dev/null.json'' ''12345''] FileUpdate)
       \<lparr>history := [''go1'' \<mapsto> \<lparr>UID = ''go1'', Path = ''/dev/null.json'', SHA256 = ''12345'',
                     content = [], processed = True\<rparr>]\<rparr> \<and>
   actions (Add (testFile ''go1'' ''/b.json'' ''12345'')
       (testGitlab [''go1'' \<mapsto> testFile ''go1'' ''/dev/null.json'' ''12345''] FileUpdate)) = [] \<and>
   wf_History [''go1'' \<mapsto> testFile ''go1'' ''/dev/null.json'' ''12345''] \<and>
   history (deleteOrphans [''go1''] (Add (testFile ''go1'' ''/b.json'' ''12345'')
       (testGitlab [''go1'' \<mapsto> testFile ''go1'' ''/dev/null.json'' ''12345''] FileUpdate))) ''go1'' =
     Some \<lparr>UID = ''go1'', Path = ''/dev/null.json'', SHA256 = ''12345'',
                     content = [], processed = True\<rparr>"
proof -
  have wf: "wf_History [''go1'' \<mapsto> testFile ''go1'' ''/dev/null.json'' ''12345'']"
    by (simp add: wf_History_def testFile_def)
  show ?thesis
    using wf Add_unchanged [of "testGitlab [''go1'' \<mapsto> testFile ''go1'' ''/dev/null.json'' ''12345''] FileUpdate"
                      "testFile ''go1'' ''/b.json'' ''12345''"
                      "testFile ''go1'' ''/dev/null.json'' ''12345''"]
    by (simp add: testGitlab_def testFile_def)
qed

text \<open>
  C10 (as amended). A blob with the fingerprint of its history record and another path:
  \<open>Add\<close> sets the processed flag of the record and changes nothing else, so the path
  and the fingerprint of the record stay, and the projection of the history on the
  persisted fields is what it was. A later blob with that id, another fingerprint and a
  path other than the one recorded, added to any state that holds the record with its id,
  path and fingerprint (the state in memory, or a history read back without loss), gives
  exactly one action: a Move to the path of the later blob, with its content, whose
  previous path is the recorded path when that path is not the empty string and is unset
  when it is; the record is overwritten with the later blob, marked processed.
\<close>

theorem Add_rename_keeps_record:
  assumes "history g (UID b) = Some hf" and "SHA256 hf = SHA256 b" and "Path hf \<noteq> Path b"
  shows "Add b g = g\<lparr>history := (history g)(UID b \<mapsto> hf\<lparr>processed := True\<rparr>)\<rparr> \<and>
         persistedHistory (history (Add b g)) = persistedHistory (history g) \<and>
         (\<forall>b' g' r. history g' (UID b) = Some r \<and>
                     UID r = UID hf \<and> Path r = Path hf \<and> SHA256 r = SHA256 hf \<and>
                     UID hf = UID b \<and> UID b' = UID b \<and>
                     SHA256 b' \<noteq> SHA256 hf \<and> Path b' \<noteq> Path hf \<longrightarrow>
            Add b' g' =
              g'\<lparr>actions := actions g' @
                    [\<lparr>Action = Some FileMove, FilePath = Some (Path b'),
                      PreviousPath = (if Path hf = [] then None else Some (Path hf)),
                      Content = Some (content b')\<rparr>],
                 history := (history g')(UID b' \<mapsto> b'\<lparr>processed := True\<rparr>)\<rparr>)"
proof -
  have eq: "Add b g = g\<lparr>history := (history g)(UID b \<mapsto> hf\<lparr>processed := True\<rparr>)\<rparr>"
    using assms by (simp add: Add_def moved_def modified_def)
  have rl: "persistedHistory (history (Add b g)) = persistedHistory (history g)"
    using assms(1) by (auto simp add: eq persistedHistory_def persisted_def fun_eq_iff)
  have later: "Add b' g' =
              g'\<lparr>actions := actions g' @
                    [\<lparr>Action = Some FileMove, FilePath = Some (Path b'),
                      PreviousPath = (if Path hf = [] then None else Some (Path hf)),
                      Content = Some (content b')\<rparr>],
                 history := (history g')(UID b' \<mapsto> b'\<lparr>processed := True\<rparr>)\<rparr>"
    if "history g' (UID b) = Some r"
      and "UID r = UID hf" and "Path r = Path hf" and "SHA256 r = SHA256 hf"
      and "UID hf = UID b" and "UID b' = UID b"
      and "SHA256 b' \<noteq> SHA256 hf" and "Path b' \<noteq> Path hf"
    for b' g' r
    using that by (auto simp add: Add_def add_def moved_def Let_def)
  from eq rl later show ?thesis by blast
qed

theorem Add_rename_keeps_record_witness:
  "Add (testFile ''go1'' ''/b.json'' ''12345'')
       (testGitlab [''go1'' \<mapsto> testFile ''go1'' ''/a.json'' ''12345''] FileUpdate) =
     (testGitlab [''go1'' \<mapsto> testFile ''go1'' ''/a.json'' ''12345''] FileUpdate)
       \<lparr>history := [''go1'' \<mapsto> \<lparr>UID = ''go1'', Path = ''/a.json'', SHA256 = ''12345'',
                     content = [], processed = True\<rparr>]\<rparr> \<and>
   Add (testFile ''go1'' ''/b.json'' ''54321'')
       (Add (testFile ''go1'' ''/b.json'' ''12345'')
          (testGitlab [''go1'' \<mapsto> testFile ''go1'' ''/a.json'' ''12345''] FileUpdate)) =
     (testGitlab [''go1'' \<mapsto> testFile ''go1'' ''/a.json'' ''12345''] FileUpdate)
       \<lparr>actions := [\<lparr>Action = Some FileMove, FilePath = Some ''/b.json'',
                      PreviousPath = Some ''/a.json'', Content = Some []\<rparr>],
        history := [''go1'' \<mapsto> \<lparr>UID = ''go1'', Path = ''/b.json'', SHA256 = ''54321'',
                     content = [], processed = True\<rparr>]\<rparr>"
proof -
  let ?g = "testGitlab [''go1'' \<mapsto> testFile ''go1'' ''/a.json'' ''12345''] FileUpdate"
  let ?b = "testFile ''go1'' ''/b.json'' ''12345''"
  let ?hf = "testFile ''go1'' ''/a.json'' ''12345''"
  let ?b' = "testFile ''go1'' ''/b.json'' ''54321''"
  let ?r = "?hf\<lparr>processed := True\<rparr>"
  have h1: "history ?g (UID ?b) = Some ?hf" by (simp add: testGitlab_def testFile_def)
  have h2: "SHA256 ?hf = SHA256 ?b" by (simp add: testFile_def)
  have h3: "Path ?hf \<noteq> Path ?b" by (simp add: testFile_def)
  note t = Add_rename_keeps_record [OF h1 h2 h3]
  from t have e0: "Add ?b ?g = ?g\<lparr>history := (history ?g)(UID ?b \<mapsto> ?r)\<rparr>"
    by simp
  then have e: "Add ?b ?g = ?g\<lparr>history := [''go1'' \<mapsto> \<lparr>UID = ''go1'', Path = ''/a.json'',
                     SHA256 = ''12345'', content = [], processed = True\<rparr>]\<rparr>"
    by (simp add: testGitlab_def testFile_def)
  have pre: "history (Add ?b ?g) (UID ?b) = Some ?r \<and>
        UID ?r = UID ?hf \<and> Path ?r = Path ?hf \<and> SHA256 ?r = SHA256 ?hf \<and>
        UID ?hf = UID ?b \<and> UID ?b' = UID ?b \<and>
        SHA256 ?b' \<noteq> SHA256 ?hf \<and> Path ?b' \<noteq> Path ?hf"
    unfolding e0 by (simp add: testFile_def)
  from t have "\<forall>b' g' r. history g' (UID ?b) = Some r \<and>
                     UID r = UID ?hf \<and> Path r = Path ?hf \<and> SHA256 r = SHA256 ?hf \<and>
                     UID ?hf = UID ?b \<and> UID b' = UID ?b \<and>
                     SHA256 b' \<noteq> SHA256 ?hf \<and> Path b' \<noteq> Path ?hf \<longrightarrow>
            Add b' g' =
              g'\<lparr>actions := actions g' @
                    [\<lparr>Action = Some FileMove, FilePath = Some (Path b'),
                      PreviousPath = (if Path ?hf = [] then None else Some (Path ?hf)),
                      Content = Some (content b')\<rparr>],
                 history := (history g')(UID b' \<mapsto> b'\<lparr>processed := True\<rparr>)\<rparr>"
    by blast
  with pre have m: "Add ?b' (Add ?b ?g) =
              (Add ?b ?g)\<lparr>actions := actions (Add ?b ?g) @
                    [\<lparr>Action = Some FileMove, FilePath = Some (Path ?b'),
                      PreviousPath = (if Path ?hf = [] then None else Some (Path ?hf)),
                      Content = Some (content ?b')\<rparr>],
                 history := (history (Add ?b ?g))(UID ?b' \<mapsto> ?b'\<lparr>processed := True\<rparr>)\<rparr>"
    by blast
  have m': "Add ?b' (Add ?b ?g) =
     ?g\<lparr>actions := [\<lparr>Action = Some FileMove, FilePath = Some ''/b.json'',
                      PreviousPath = Some ''/a.json'', Content = Some []\<rparr>],
        history := [''go1'' \<mapsto> \<lparr>UID = ''go1'', Path = ''/b.json'', SHA256 = ''54321'',
                     content = [], processed = True\<rparr>]\<rparr>"
    unfolding m unfolding e by (simp add: testGitlab_def testFile_def)
  from e m' show ?thesis by simp
qed

theorem rename_then_change_counterexample:
  "history (testGitlab [''go1'' \<mapsto> testFile ''go1'' [] ''12345''] FileUpdate)
           (UID (testFile ''go1'' ''/b.json'' ''12345'')) = Some (testFile ''go1'' [] ''12345'') \<and>
   SHA256 (testFile ''go1'' [] ''12345'') = SHA256 (testFile ''go1'' ''/b.json'' ''12345'') \<and>
   Path (testFile ''go1'' [] ''12345'') \<noteq> Path (testFile ''go1'' ''/b.json'' ''12345'') \<and>
   history (Add (testFile ''go1'' ''/b.json'' ''12345'')
              (testGitlab [''go1'' \<mapsto> testFile ''go1'' [] ''12345''] FileUpdate)) ''go1'' =
     Some \<lparr>UID = ''go1'', Path = [], SHA256 = ''12345'', content = [], processed = True\<rparr> \<and>
   actions (Add (testFile ''go1'' ''/b.json'' ''54321'')
             (Add (testFile ''go1'' ''/b.json'' ''12345'')
                (testGitlab [''go1'' \<mapsto> testFile ''go1'' [] ''12345''] FileUpdate))) =
     [\<lparr>Action = Some FileMove, FilePath = Some ''/b.json'',
       PreviousPath = None, Content = Some []\<rparr>] \<and>
   PreviousPath (last (actions (Add (testFile ''go1'' ''/b.json'' ''54321'')
             (Add (testFile ''go1'' ''/b.json'' ''12345'')
                (testGitlab [''go1'' \<mapsto> testFile ''go1'' [] ''12345''] FileUpdate)))))
     \<noteq> Some (Path (testFile ''go1'' [] ''12345''))"
  by (simp add: Add_def add_def moved_def modified_def Let_def testGitlab_def testFile_def)

section \<open>The orphan sweep\<close>

text \<open>
  C7. In a history whose records are stored under their own id, a visit of all the keys,
  each once, appends for every record that is not processed exactly one Delete action
  with the path of the record, and removes the record; the processed records stay and
  get no action. The actions appended are \<open>sweepDeletes\<close>, as many as there are
  records that are not processed, and the history left is \<open>sweepHistory\<close>. A record
  whose id was not added in the run is in the history as it was loaded, so not
  processed.
\<close>

theorem deleteOrphans_sweep:
  assumes "wf_History (history g)" and "distinct order" and "set order = dom (history g)"
  shows "actions (deleteOrphans order g) = actions g @ sweepDeletes (history g) order \<and>
         history (deleteOrphans order g) = sweepHistory (history g) \<and>
         length (sweepDeletes (history g) order) =
           card {k. \<exists>f. history g k = Some f \<and> \<not> processed f} \<and>
         (\<forall>k f. history g k = Some f \<and> \<not> processed f \<longrightarrow>
            k \<in> set order \<and> history (deleteOrphans order g) k = None \<and>
            sweepDeletes (history g) [k] =
              [\<lparr>Action = Some FileDelete, FilePath = Some (Path f),
                PreviousPath = None, Content = None\<rparr>]) \<and>
         (\<forall>k f. history g k = Some f \<and> processed f \<longrightarrow>
            history (deleteOrphans order g) k = Some f \<and> sweepDeletes (history g) [k] = []) \<and>
         (\<forall>fs g0 k. g = AddAll fs g0 \<and> k \<notin> UID ` set fs \<longrightarrow> history g k = history g0 k)"
proof -
  note a = deleteOrphans_wf [OF assms(1) assms(2)]
  have h: "history (deleteOrphans order g) = sweepHistory (history g)"
    unfolding a [THEN conjunct2] using assms(3) by (auto simp add: fun_eq_iff sweepHistory_def)
  have "{k. \<exists>f. history g k = Some f \<and> \<not> processed f} =
        {k \<in> set order. \<exists>f. history g k = Some f \<and> \<not> processed f}"
    using assms(3) by auto
  then have c: "length (sweepDeletes (history g) order) =
           card {k. \<exists>f. history g k = Some f \<and> \<not> processed f}"
    using sweepDeletes_length [OF assms(2), of "history g"] by simp
  have u: "k \<in> set order \<and> history (deleteOrphans order g) k = None \<and>
            sweepDeletes (history g) [k] =
              [\<lparr>Action = Some FileDelete, FilePath = Some (Path f),
                PreviousPath = None, Content = None\<rparr>]"
    if "history g k = Some f" and "\<not> processed f" for k f
    using that assms(3) by (auto simp add: h sweepHistory_def)
  have p: "history (deleteOrphans order g) k = Some f \<and> sweepDeletes (history g) [k] = []"
    if "history g k = Some f" and "processed f" for k f
    using that by (simp add: h sweepHistory_def)
  have n: "history g k = history g0 k" if "g = AddAll fs g0" and "k \<notin> UID ` set fs" for fs g0 k
    using that by (simp add: AddAll_other_keys)
  from a [THEN conjunct1] h c u p n show ?thesis by blast
qed

theorem deleteOrphans_sweep_witness:
  "wf_History [''1'' \<mapsto> testFile ''1'' ''/dev/null1.json'' ''12345'',
               ''2'' \<mapsto> (testFile ''2'' ''/dev/null2.json'' ''54321'')\<lparr>processed := True\<rparr>] \<and>
   deleteOrphans [''2'', ''1'']
     (testGitlab [''1'' \<mapsto> testFile ''1'' ''/dev/null1.json'' ''12345'',
                  ''2'' \<mapsto> (testFile ''2'' ''/dev/null2.json'' ''54321'')\<lparr>processed := True\<rparr>]
        FileUpdate) =
     (testGitlab [''2'' \<mapsto> (testFile ''2'' ''/dev/null2.json'' ''54321'')\<lparr>processed := True\<rparr>]
        FileUpdate)
       \<lparr>actions := [\<lparr>Action = Some FileDelete, FilePath = Some ''/dev/null1.json'',
                      PreviousPath = None, Content = None\<rparr>]\<rparr> \<and>
   actions (deleteOrphans [''2'', ''1'']
     (testGitlab [''1'' \<mapsto> testFile ''1'' ''/dev/null1.json'' ''12345'',
                  ''2'' \<mapsto> (testFile ''2'' ''/dev/null2.json'' ''54321'')\<lparr>processed := True\<rparr>]
        FileUpdate)) =
     sweepDeletes [''1'' \<mapsto> testFile ''1'' ''/dev/null1.json'' ''12345'',
                  ''2'' \<mapsto> (testFile ''2'' ''/dev/null2.json'' ''54321'')\<lparr>processed := True\<rparr>]
       [''2'', ''1'']"
proof -
  let ?h = "[''1'' \<mapsto> testFile ''1'' ''/dev/null1.json'' ''12345'',
             ''2'' \<mapsto> (testFile ''2'' ''/dev/null2.json'' ''54321'')\<lparr>processed := True\<rparr>]"
  have wf: "wf_History (history (testGitlab ?h FileUpdate))"
    by (simp add: wf_History_def testFile_def testGitlab_def)
  have d: "distinct [''2'', ''1'']" by simp
  have s: "set [''2'', ''1''] = dom (history (testGitlab ?h FileUpdate))"
    by (auto simp add: testGitlab_def)
  have e: "deleteOrphans [''2'', ''1''] (testGitlab ?h FileUpdate) =
     (testGitlab [''2'' \<mapsto> (testFile ''2'' ''/dev/null2.json'' ''54321'')\<lparr>processed := True\<rparr>]
        FileUpdate)
       \<lparr>actions := [\<lparr>Action = Some FileDelete, FilePath = Some ''/dev/null1.json'',
                      PreviousPath = None, Content = None\<rparr>]\<rparr>"
    by (simp add: testGitlab_def testFile_def fun_upd_twist)
  from wf e deleteOrphans_sweep [OF wf d s] show ?thesis
    by (simp add: testGitlab_def)
qed

section \<open>Loading the history\<close>

text \<open>
  C9. With a client at hand, \<open>NewGitlab\<close> answers as follows to what the fetch of the
  history file returns. An error with a response of status 404: the syncer, with an
  empty history, no action, and \<open>FileCreate\<close> as the action for the history file. Any
  other error of the fetch (another status, or no response at all), an error of the
  base64 decoding, an error of the JSON decoding: the error, wrapped, and no syncer, so
  that nothing can be added or committed. A history that was read leaves the action at
  \<open>FileUpdate\<close>.
\<close>

theorem NewGitlab_history_load:
  assumes "NewClient token baseURL = Inr c"
  shows "(\<forall>r err. GetFile p ''history.json'' br = GetFileFailed (Some r) err \<and> StatusCode r = 404 \<longrightarrow>
            NewGitlab NewClient GetFile DecodeString Unmarshal baseURL token br p =
              Inr \<lparr>client = c, pid = p, branch = br, history = Map.empty,
                   historyFile = ''history.json'', historyAction = FileCreate, actions = []\<rparr>) \<and>
         (\<forall>resp err. GetFile p ''history.json'' br = GetFileFailed resp err \<and>
                     (resp = None \<or> (\<exists>r. resp = Some r \<and> StatusCode r \<noteq> 404)) \<longrightarrow>
            NewGitlab NewClient GetFile DecodeString Unmarshal baseURL token br p =
              Inl (Wrapped ''gitlab: error parsing history'' err)) \<and>
         (\<forall>text err. GetFile p ''history.json'' br = GetFileOK text \<and> DecodeString text = Inl err \<longrightarrow>
            NewGitlab NewClient GetFile DecodeString Unmarshal baseURL token br p =
              Inl (Wrapped ''gitlab: error parsing history'' err)) \<and>
         (\<forall>text data err. GetFile p ''history.json'' br = GetFileOK text \<and>
                          DecodeString text = Inr data \<and> Unmarshal data Map.empty = Inl err \<longrightarrow>
            NewGitlab NewClient GetFile DecodeString Unmarshal baseURL token br p =
              Inl (Wrapped ''gitlab: error parsing history'' err)) \<and>
         (\<forall>text data h. GetFile p ''history.json'' br = GetFileOK text \<and>
                        DecodeString text = Inr data \<and> Unmarshal data Map.empty = Inr h \<longrightarrow>
            NewGitlab NewClient GetFile DecodeString Unmarshal baseURL token br p =
              Inr \<lparr>client = c, pid = p, branch = br, history = h,
                   historyFile = ''history.json'', historyAction = FileUpdate, actions = []\<rparr>)"
  using assms
  by (auto simp add: NewGitlab_def parseHistory_def StatusNotFound_def)

theorem NewGitlab_history_load_witness:
  "NewGitlab (\<lambda>t u. Inr \<lparr>requests = []\<rparr>)
     (\<lambda>p f b. GetFileFailed (Some \<lparr>StatusCode = 404\<rparr>) (ExternalError ''404 Not Found''))
     (\<lambda>s. Inr s) (\<lambda>s h. Inr h) ''http://localhost'' [] ''test'' 1 =
     Inr (testGitlab Map.empty FileCreate) \<and>
   NewGitlab (\<lambda>t u. Inr \<lparr>requests = []\<rparr>)
     (\<lambda>p f b. GetFileFailed (Some \<lparr>StatusCode = 500\<rparr>) (ExternalError ''500''))
     (\<lambda>s. Inr s) (\<lambda>s h. Inr h) ''http://localhost'' [] ''test'' 1 =
     Inl (Wrapped ''gitlab: error parsing history'' (ExternalError ''500'')) \<and>
   NewGitlab (\<lambda>t u. Inr \<lparr>requests = []\<rparr>)
     (\<lambda>p f b. GetFileFailed None (ExternalError ''connection refused''))
     (\<lambda>s. Inr s) (\<lambda>s h. Inr h) ''http://localhost'' [] ''test'' 1 =
     Inl (Wrapped ''gitlab: error parsing history'' (ExternalError ''connection refused'')) \<and>
   NewGitlab (\<lambda>t u. Inr \<lparr>requests = []\<rparr>)
     (\<lambda>p f b. GetFileOK ''!'')
     (\<lambda>s. Inl (ExternalError ''illegal base64 data'')) (\<lambda>s h. Inr h) ''http://localhost'' [] ''test'' 1 =
     Inl (Wrapped ''gitlab: error parsing history'' (ExternalError ''illegal base64 data'')) \<and>
   NewGitlab (\<lambda>t u. Inr \<lparr>requests = []\<rparr>)
     (\<lambda>p f b. GetFileOK ''e30='')
     (\<lambda>s. Inr ''{'') (\<lambda>s h. Inl (ExternalError ''unexpected end of JSON input''))
     ''http://localhost'' [] ''test'' 1 =
     Inl (Wrapped ''gitlab: error parsing history'' (ExternalError ''unexpected end of JSON input''))"
proof -
  let ?C = "\<lambda>(t::string) (u::string). Inr \<lparr>requests = []\<rparr> :: error + Client"
  have c: "?C [] ''http://localhost'' = Inr \<lparr>requests = []\<rparr>" by simp
  note t = NewGitlab_history_load [of ?C "[]" "''http://localhost''" "\<lparr>requests = []\<rparr>", OF c]
  have 1: "NewGitlab ?C
     (\<lambda>p f b. GetFileFailed (Some \<lparr>StatusCode = 404\<rparr>) (ExternalError ''404 Not Found''))
     (\<lambda>s. Inr s) (\<lambda>s h. Inr h) ''http://localhost'' [] ''test'' 1 =
     Inr (testGitlab Map.empty FileCreate)"
    using t [of "\<lambda>p f b. GetFileFailed (Some \<lparr>StatusCode = 404\<rparr>) (ExternalError ''404 Not Found'')"
               1 "''test''" "\<lambda>s. Inr s" "\<lambda>s h. Inr h", THEN conjunct1]
    by (simp add: testGitlab_def)
  have 2: "NewGitlab ?C
     (\<lambda>p f b. GetFileFailed (Some \<lparr>StatusCode = 500\<rparr>) (ExternalError ''500''))
     (\<lambda>s. Inr s) (\<lambda>s h. Inr h) ''http://localhost'' [] ''test'' 1 =
     Inl (Wrapped ''gitlab: error parsing history'' (ExternalError ''500''))"
    using t [of "\<lambda>p f b. GetFileFailed (Some \<lparr>StatusCode = 500\<rparr>) (ExternalError ''500'')"
               1 "''test''" "\<lambda>s. Inr s" "\<lambda>s h. Inr h", THEN conjunct2, THEN conjunct1]
    by simp
  have 3: "NewGitlab ?C
     (\<lambda>p f b. GetFileFailed None (ExternalError ''connection refused''))
     (\<lambda>s. Inr s) (\<lambda>s h. Inr h) ''http://localhost'' [] ''test'' 1 =
     Inl (Wrapped ''gitlab: error parsing history'' (ExternalError ''connection refused''))"
    using t [of "\<lambda>p f b. GetFileFailed None (ExternalError ''connection refused'')"
               1 "''test''" "\<lambda>s. Inr s" "\<lambda>s h. Inr h", THEN conjunct2, THEN conjunct1]
    by simp
  have 4: "NewGitlab ?C
     (\<lambda>p f b. GetFileOK ''!'')
     (\<lambda>s. Inl (ExternalError ''illegal base64 data'')) (\<lambda>s h. Inr h) ''http://localhost'' [] ''test'' 1 =
     Inl (Wrapped ''gitlab: error parsing history'' (ExternalError ''illegal base64 data''))"
    using t [of "\<lambda>p f b. GetFileOK ''!''" 1 "''test''"
               "\<lambda>s. Inl (ExternalError ''illegal base64 data'')" "\<lambda>s h. Inr h",
             THEN conjunct2, THEN conjunct2, THEN conjunct1]
    by simp
  have 5: "NewGitlab ?C
     (\<lambda>p f b. GetFileOK ''e30='')
     (\<lambda>s. Inr ''{'') (\<lambda>s h. Inl (ExternalError ''unexpected end of JSON input''))
     ''http://localhost'' [] ''test'' 1 =
     Inl (Wrapped ''gitlab: error parsing history'' (ExternalError ''unexpected end of JSON input''))"
    using t [of "\<lambda>p f b. GetFileOK ''e30=''" 1 "''test''"
               "\<lambda>s. Inr ''{''" "\<lambda>s h. Inl (ExternalError ''unexpected end of JSON input'')",
             THEN conjunct2, THEN conjunct2, THEN conjunct2, THEN conjunct1]
    by simp
  from 1 2 3 4 5 show ?thesis by simp
qed

section \<open>Commit\<close>

text \<open>
  C1 (as amended). For every run (the blobs added, then \<open>Commit\<close>) the action list
  after \<open>Commit\<close> is the list after the sweep followed by one action for the history
  file, with the action value the syncer was built with, the path of the history file and
  the encoded history, exactly when the list after the sweep is not empty, the history
  after the sweep is not empty and the encoding succeeds; otherwise it is the list after
  the sweep. The history after the sweep is not empty when a blob was added to a history
  whose records are stored under their own id. So a batch that holds only the Delete
  actions of a sweep that emptied the history has no action for the history file. The
  request that \<open>Commit\<close> sends, when the list after the sweep is not empty and the
  encoding has not failed, carries exactly this action list.
\<close>

theorem Commit_history_action:
  "actions (snd (Commit order Marshal CreateCommit (AddAll fs g))) =
     (let g1 = deleteOrphans order (AddAll fs g) in
      if actions g1 = [] \<or> history g1 = Map.empty then actions g1
      else (case Marshal (history g1) of
              Inl err \<Rightarrow> actions g1
            | Inr data \<Rightarrow>
                actions g1 @
                [\<lparr>Action = Some (historyAction g), FilePath = Some (historyFile g),
                  PreviousPath = None, Content = Some data\<rparr>])) \<and>
   (wf_History (history g) \<and> fs \<noteq> [] \<longrightarrow>
      history (deleteOrphans order (AddAll fs g)) \<noteq> Map.empty) \<and>
   requests (client (snd (Commit order Marshal CreateCommit (AddAll fs g)))) =
     (let g1 = deleteOrphans order (AddAll fs g) in
      if actions g1 = [] \<or> (history g1 \<noteq> Map.empty \<and> isl (Marshal (history g1)))
      then requests (client g)
      else requests (client g) @
             [(pid g, \<lparr>Branch = Some (branch g), CommitMessage = Some backupMessage,
                       Actions = actions (snd (Commit order Marshal CreateCommit (AddAll fs g)))\<rparr>)])"
proof -
  have c: "requests (client (snd (Commit order Marshal CreateCommit (AddAll fs g)))) =
     (let g1 = deleteOrphans order (AddAll fs g) in
      if actions g1 = [] \<or> (history g1 \<noteq> Map.empty \<and> isl (Marshal (history g1)))
      then requests (client g)
      else requests (client g) @
             [(pid g, \<lparr>Branch = Some (branch g), CommitMessage = Some backupMessage,
                       Actions = actions (snd (Commit order Marshal CreateCommit (AddAll fs g)))\<rparr>)])"
    by (simp add: Commit_requests [of order Marshal CreateCommit "AddAll fs g"] Let_def AddAll_frame)
  have a: "actions (snd (Commit order Marshal CreateCommit (AddAll fs g))) =
     (let g1 = deleteOrphans order (AddAll fs g) in
      if actions g1 = [] \<or> history g1 = Map.empty then actions g1
      else (case Marshal (history g1) of
              Inl err \<Rightarrow> actions g1
            | Inr data \<Rightarrow>
                actions g1 @
                [\<lparr>Action = Some (historyAction g), FilePath = Some (historyFile g),
                  PreviousPath = None, Content = Some data\<rparr>]))"
    by (simp add: Commit_actions Let_def AddAll_frame split: sum.splits)
  have b: "history (deleteOrphans order (AddAll fs g)) \<noteq> Map.empty"
    if "wf_History (history g)" and "fs \<noteq> []"
  proof -
    from that(2) obtain r where r: "history (AddAll fs g) (UID (last fs)) = Some r" "processed r"
      using AddAll_last_processed by blast
    have "history (deleteOrphans order (AddAll fs g)) (UID (last fs)) = Some r"
      using that(1) r by (intro deleteOrphans_keeps_processed wf_History_AddAll)
    then show ?thesis by auto
  qed
  from a b c show ?thesis by blast
qed

theorem Commit_history_action_witness:
  "wf_History [''go1'' \<mapsto> testFile ''go1'' ''/dev/null.json'' ''12345''] \<and>
   actions (snd (Commit [''go1''] (answerMarshal ''{}'') commitOK
      (AddAll [testFile ''go1'' ''/dev/null.json'' ''54321'']
         (testGitlab [''go1'' \<mapsto> testFile ''go1'' ''/dev/null.json'' ''12345''] FileUpdate)))) =
     [\<lparr>Action = Some FileUpdate, FilePath = Some ''/dev/null.json'',
       PreviousPath = None, Content = Some []\<rparr>,
      \<lparr>Action = Some FileUpdate, FilePath = Some ''history.json'',
       PreviousPath = None, Content = Some ''{}''\<rparr>]"
proof -
  let ?h = "[''go1'' \<mapsto> testFile ''go1'' ''/dev/null.json'' ''12345'']"
  let ?g = "testGitlab ?h FileUpdate"
  let ?fs = "[testFile ''go1'' ''/dev/null.json'' ''54321'']"
  have wf: "wf_History (history ?g)" by (simp add: wf_History_def testGitlab_def testFile_def)
  note t = Commit_history_action [of "[''go1'']" "answerMarshal ''{}''" commitOK ?fs ?g]
  from t wf have ne: "history (deleteOrphans [''go1''] (AddAll ?fs ?g)) \<noteq> Map.empty"
    by simp
  have g1: "deleteOrphans [''go1''] (AddAll ?fs ?g) =
     ?g\<lparr>actions := [\<lparr>Action = Some FileUpdate, FilePath = Some ''/dev/null.json'',
                      PreviousPath = None, Content = Some []\<rparr>],
         history := [''go1'' \<mapsto> (testFile ''go1'' ''/dev/null.json'' ''54321'')\<lparr>processed := True\<rparr>]\<rparr>"
    by (simp add: Add_def add_def moved_def modified_def testGitlab_def testFile_def)
  from t [THEN conjunct1] ne wf show ?thesis
    unfolding g1 by (simp add: answerMarshal_def testGitlab_def)
qed

theorem Commit_only_orphans_counterexample:
  "actions (deleteOrphans [''go1'']
      (AddAll [] (testGitlab [''go1'' \<mapsto> testFile ''go1'' ''/dev/null.json'' ''12345''] FileUpdate)))
     \<noteq> [] \<and>
   Commit [''go1''] (answerMarshal ''{}'') commitOK
      (AddAll [] (testGitlab [''go1'' \<mapsto> testFile ''go1'' ''/dev/null.json'' ''12345''] FileUpdate)) =
     (None,
      \<lparr>client = \<lparr>requests =
          [(1, \<lparr>Branch = Some ''test'', CommitMessage = Some backupMessage,
                Actions = [\<lparr>Action = Some FileDelete, FilePath = Some ''/dev/null.json'',
                            PreviousPath = None, Content = None\<rparr>]\<rparr>)]\<rparr>,
       pid = 1, branch = ''test'', history = Map.empty, historyFile = ''history.json'',
       historyAction = FileUpdate,
       actions = [\<lparr>Action = Some FileDelete, FilePath = Some ''/dev/null.json'',
                   PreviousPath = None, Content = None\<rparr>]\<rparr>)"
  by (simp add: Commit_def updateHistory_def Let_def testGitlab_def testFile_def commitOK_def)
text \<open>
  C2 (as amended). Two runs from the same state with the same blobs, with any two orders
  of visit of the sweep, in a history whose records are stored under their own id: the
  two action lists are the actions of the adds, then the Delete actions of the sweep,
  then the same tail of at most one action for the history file. The Delete actions of
  the two runs are the same up to their order, and the two histories are equal.
\<close>

theorem Commit_order_of_deletes:
  assumes "wf_History (history g)"
    and "distinct o1" and "set o1 = dom (history (AddAll fs g))"
    and "distinct o2" and "set o2 = dom (history (AddAll fs g))"
  shows "\<exists>tail.
           actions (snd (Commit o1 Marshal CreateCommit (AddAll fs g))) =
             actions (AddAll fs g) @ sweepDeletes (history (AddAll fs g)) o1 @ tail \<and>
           actions (snd (Commit o2 Marshal CreateCommit' (AddAll fs g))) =
             actions (AddAll fs g) @ sweepDeletes (history (AddAll fs g)) o2 @ tail \<and>
           mset (sweepDeletes (history (AddAll fs g)) o1) =
             mset (sweepDeletes (history (AddAll fs g)) o2) \<and>
           (\<forall>a \<in> set (sweepDeletes (history (AddAll fs g)) o1). Action a = Some FileDelete) \<and>
           length tail \<le> 1 \<and>
           history (snd (Commit o1 Marshal CreateCommit (AddAll fs g))) =
             history (snd (Commit o2 Marshal CreateCommit' (AddAll fs g)))"
proof -
  let ?g = "AddAll fs g"
  let ?H = "sweepHistory (history ?g)"
  let ?D1 = "sweepDeletes (history ?g) o1"
  let ?D2 = "sweepDeletes (history ?g) o2"
  let ?ha = "\<lambda>data. \<lparr>Action = Some (historyAction ?g), FilePath = Some (historyFile ?g),
                       PreviousPath = None, Content = Some data\<rparr>"
  let ?tail = "if actions ?g @ ?D1 = [] \<or> ?H = Map.empty then []
               else (case Marshal ?H of Inl err \<Rightarrow> [] | Inr data \<Rightarrow> [?ha data])"
  have wf: "wf_History (history ?g)" using assms(1) by (rule wf_History_AddAll)
  have a1: "actions (deleteOrphans o1 ?g) = actions ?g @ ?D1"
    using deleteOrphans_wf [OF wf assms(2)] by simp
  have a2: "actions (deleteOrphans o2 ?g) = actions ?g @ ?D2"
    using deleteOrphans_wf [OF wf assms(4)] by simp
  have h1: "history (deleteOrphans o1 ?g) = ?H"
    using wf assms(2) assms(3) by (rule deleteOrphans_all_keys)
  have h2: "history (deleteOrphans o2 ?g) = ?H"
    using wf assms(4) assms(5) by (rule deleteOrphans_all_keys)
  have "mset o1 = mset o2"
    using assms(2-5) by (simp add: set_eq_iff_mset_eq_distinct [symmetric])
  then have m: "mset ?D1 = mset ?D2" by (rule sweepDeletes_perm)
  then have "size (mset ?D1) = size (mset ?D2)" by simp
  then have len: "length ?D1 = length ?D2" by simp
  then have e: "?D1 = [] \<longleftrightarrow> ?D2 = []" by (metis length_0_conv)
  have c1: "actions (snd (Commit o1 Marshal CreateCommit ?g)) = actions ?g @ ?D1 @ ?tail"
    unfolding Commit_actions Let_def a1 h1 by (simp split: sum.splits)
  have c2: "actions (snd (Commit o2 Marshal CreateCommit' ?g)) = actions ?g @ ?D2 @ ?tail"
    unfolding Commit_actions Let_def a2 h2 using e by (simp split: sum.splits)
  have d: "\<forall>a \<in> set ?D1. Action a = Some FileDelete"
    using sweepDeletes_all_Delete by blast
  have t: "length ?tail \<le> 1" by (simp split: sum.splits)
  have hh: "history (snd (Commit o1 Marshal CreateCommit ?g)) =
            history (snd (Commit o2 Marshal CreateCommit' ?g))"
    by (simp add: Commit_history h1 h2)
  from c1 c2 m d t hh show ?thesis by blast
qed

theorem Commit_order_of_deletes_witness:
  "wf_History [''1'' \<mapsto> testFile ''1'' ''/dev/null1.json'' ''12345'',
               ''2'' \<mapsto> testFile ''2'' ''/dev/null2.json'' ''12345''] \<and>
   set [''1'', ''2'', ''3''] =
     dom (history (AddAll [testFile ''3'' ''/dev/null3.json'' ''54321'']
       (testGitlab [''1'' \<mapsto> testFile ''1'' ''/dev/null1.json'' ''12345'',
                    ''2'' \<mapsto> testFile ''2'' ''/dev/null2.json'' ''12345''] FileUpdate))) \<and>
   mset (sweepDeletes (history (AddAll [testFile ''3'' ''/dev/null3.json'' ''54321'']
       (testGitlab [''1'' \<mapsto> testFile ''1'' ''/dev/null1.json'' ''12345'',
                    ''2'' \<mapsto> testFile ''2'' ''/dev/null2.json'' ''12345''] FileUpdate)))
         [''1'', ''2'', ''3'']) =
   mset (sweepDeletes (history (AddAll [testFile ''3'' ''/dev/null3.json'' ''54321'']
       (testGitlab [''1'' \<mapsto> testFile ''1'' ''/dev/null1.json'' ''12345'',
                    ''2'' \<mapsto> testFile ''2'' ''/dev/null2.json'' ''12345''] FileUpdate)))
         [''2'', ''1'', ''3'']) \<and>
   history (snd (Commit [''1'', ''2'', ''3''] (answerMarshal ''{}'') commitOK
     (AddAll [testFile ''3'' ''/dev/null3.json'' ''54321'']
       (testGitlab [''1'' \<mapsto> testFile ''1'' ''/dev/null1.json'' ''12345'',
                    ''2'' \<mapsto> testFile ''2'' ''/dev/null2.json'' ''12345''] FileUpdate)))) =
   history (snd (Commit [''2'', ''1'', ''3''] (answerMarshal ''{}'') commitOK
     (AddAll [testFile ''3'' ''/dev/null3.json'' ''54321'']
       (testGitlab [''1'' \<mapsto> testFile ''1'' ''/dev/null1.json'' ''12345'',
                    ''2'' \<mapsto> testFile ''2'' ''/dev/null2.json'' ''12345''] FileUpdate))))"
proof -
  let ?h = "[''1'' \<mapsto> testFile ''1'' ''/dev/null1.json'' ''12345'',
             ''2'' \<mapsto> testFile ''2'' ''/dev/null2.json'' ''12345'']"
  let ?g = "testGitlab ?h FileUpdate"
  let ?fs = "[testFile ''3'' ''/dev/null3.json'' ''54321'']"
  have wf: "wf_History (history ?g)"
    by (simp add: wf_History_def testGitlab_def testFile_def)
  have d1: "distinct [''1'', ''2'', ''3'']" and d2: "distinct [''2'', ''1'', ''3'']"
    by simp_all
  have s1: "set [''1'', ''2'', ''3''] = dom (history (AddAll ?fs ?g))"
    by (auto simp add: Add_def history_add testGitlab_def testFile_def)
  have s2: "set [''2'', ''1'', ''3''] = dom (history (AddAll ?fs ?g))"
    by (auto simp add: Add_def history_add testGitlab_def testFile_def)
  from Commit_order_of_deletes [OF wf d1 s1 d2 s2, of "answerMarshal ''{}''" commitOK commitOK]
  have "mset (sweepDeletes (history (AddAll ?fs ?g)) [''1'', ''2'', ''3'']) =
        mset (sweepDeletes (history (AddAll ?fs ?g)) [''2'', ''1'', ''3'']) \<and>
        history (snd (Commit [''1'', ''2'', ''3''] (answerMarshal ''{}'') commitOK (AddAll ?fs ?g))) =
        history (snd (Commit [''2'', ''1'', ''3''] (answerMarshal ''{}'') commitOK (AddAll ?fs ?g)))"
    by blast
  with wf s1 show ?thesis by (simp add: testGitlab_def)
qed

theorem Commit_order_counterexample:
  "actions (snd (Commit [''1'', ''2'', ''3''] (answerMarshal ''{}'') commitOK
     (AddAll [testFile ''3'' ''/dev/null3.json'' ''54321'']
       (testGitlab [''1'' \<mapsto> testFile ''1'' ''/dev/null1.json'' ''12345'',
                    ''2'' \<mapsto> testFile ''2'' ''/dev/null2.json'' ''12345''] FileUpdate)))) =
     [\<lparr>Action = Some FileCreate, FilePath = Some ''/dev/null3.json'',
       PreviousPath = None, Content = Some []\<rparr>,
      \<lparr>Action = Some FileDelete, FilePath = Some ''/dev/null1.json'',
       PreviousPath = None, Content = None\<rparr>,
      \<lparr>Action = Some FileDelete, FilePath = Some ''/dev/null2.json'',
       PreviousPath = None, Content = None\<rparr>,
      \<lparr>Action = Some FileUpdate, FilePath = Some ''history.json'',
       PreviousPath = None, Content = Some ''{}''\<rparr>] \<and>
   actions (snd (Commit [''2'', ''1'', ''3''] (answerMarshal ''{}'') commitOK
     (AddAll [testFile ''3'' ''/dev/null3.json'' ''54321'']
       (testGitlab [''1'' \<mapsto> testFile ''1'' ''/dev/null1.json'' ''12345'',
                    ''2'' \<mapsto> testFile ''2'' ''/dev/null2.json'' ''12345''] FileUpdate)))) =
     [\<lparr>Action = Some FileCreate, FilePath = Some ''/dev/null3.json'',
       PreviousPath = None, Content = Some []\<rparr>,
      \<lparr>Action = Some FileDelete, FilePath = Some ''/dev/null2.json'',
       PreviousPath = None, Content = None\<rparr>,
      \<lparr>Action = Some FileDelete, FilePath = Some ''/dev/null1.json'',
       PreviousPath = None, Content = None\<rparr>,
      \<lparr>Action = Some FileUpdate, FilePath = Some ''history.json'',
       PreviousPath = None, Content = Some ''{}''\<rparr>] \<and>
   actions (snd (Commit [''1'', ''2'', ''3''] (answerMarshal ''{}'') commitOK
     (AddAll [testFile ''3'' ''/dev/null3.json'' ''54321'']
       (testGitlab [''1'' \<mapsto> testFile ''1'' ''/dev/null1.json'' ''12345'',
                    ''2'' \<mapsto> testFile ''2'' ''/dev/null2.json'' ''12345''] FileUpdate)))) \<noteq>
   actions (snd (Commit [''2'', ''1'', ''3''] (answerMarshal ''{}'') commitOK
     (AddAll [testFile ''3'' ''/dev/null3.json'' ''54321'']
       (testGitlab [''1'' \<mapsto> testFile ''1'' ''/dev/null1.json'' ''12345'',
                    ''2'' \<mapsto> testFile ''2'' ''/dev/null2.json'' ''12345''] FileUpdate))))"
proof -
  let ?h = "[''1'' \<mapsto> testFile ''1'' ''/dev/null1.json'' ''12345'',
             ''2'' \<mapsto> testFile ''2'' ''/dev/null2.json'' ''12345'']"
  let ?g = "testGitlab ?h FileUpdate"
  let ?fs = "[testFile ''3'' ''/dev/null3.json'' ''54321'']"
  let ?f3 = "(testFile ''3'' ''/dev/null3.json'' ''54321'')\<lparr>processed := True\<rparr>"
  have g: "AddAll ?fs ?g =
     ?g\<lparr>actions := [\<lparr>Action = Some FileCreate, FilePath = Some ''/dev/null3.json'',
                      PreviousPath = None, Content = Some []\<rparr>],
         history := ?h(''3'' \<mapsto> ?f3)\<rparr>"
    by (simp add: Add_def add_def testGitlab_def testFile_def)
  have a1: "actions (deleteOrphans [''1'', ''2'', ''3''] (AddAll ?fs ?g)) =
     [\<lparr>Action = Some FileCreate, FilePath = Some ''/dev/null3.json'',
       PreviousPath = None, Content = Some []\<rparr>,
      \<lparr>Action = Some FileDelete, FilePath = Some ''/dev/null1.json'',
       PreviousPath = None, Content = None\<rparr>,
      \<lparr>Action = Some FileDelete, FilePath = Some ''/dev/null2.json'',
       PreviousPath = None, Content = None\<rparr>]"
    unfolding g by (simp add: testGitlab_def testFile_def)
  have a2: "actions (deleteOrphans [''2'', ''1'', ''3''] (AddAll ?fs ?g)) =
     [\<lparr>Action = Some FileCreate, FilePath = Some ''/dev/null3.json'',
       PreviousPath = None, Content = Some []\<rparr>,
      \<lparr>Action = Some FileDelete, FilePath = Some ''/dev/null2.json'',
       PreviousPath = None, Content = None\<rparr>,
      \<lparr>Action = Some FileDelete, FilePath = Some ''/dev/null1.json'',
       PreviousPath = None, Content = None\<rparr>]"
    unfolding g by (simp add: testGitlab_def testFile_def)
  have h1: "history (deleteOrphans [''1'', ''2'', ''3''] (AddAll ?fs ?g)) ''3'' = Some ?f3"
    unfolding g by (simp add: testGitlab_def testFile_def)
  have h2: "history (deleteOrphans [''2'', ''1'', ''3''] (AddAll ?fs ?g)) ''3'' = Some ?f3"
    unfolding g by (simp add: testGitlab_def testFile_def)
  from h1 have n1: "history (deleteOrphans [''1'', ''2'', ''3''] (AddAll ?fs ?g)) \<noteq> Map.empty"
    by auto
  from h2 have n2: "history (deleteOrphans [''2'', ''1'', ''3''] (AddAll ?fs ?g)) \<noteq> Map.empty"
    by auto
  have f: "historyAction (AddAll ?fs ?g) = FileUpdate" "historyFile (AddAll ?fs ?g) = ''history.json''"
    unfolding g by (simp_all add: testGitlab_def)
  have c1: "actions (snd (Commit [''1'', ''2'', ''3''] (answerMarshal ''{}'') commitOK (AddAll ?fs ?g))) =
      actions (deleteOrphans [''1'', ''2'', ''3''] (AddAll ?fs ?g)) @
        [\<lparr>Action = Some (historyAction (AddAll ?fs ?g)),
          FilePath = Some (historyFile (AddAll ?fs ?g)),
          PreviousPath = None, Content = Some ''{}''\<rparr>]"
  proof (rule Commit_actions_appended)
    show "actions (deleteOrphans [''1'', ''2'', ''3''] (AddAll ?fs ?g)) \<noteq> []"
      unfolding a1 by simp
    show "history (deleteOrphans [''1'', ''2'', ''3''] (AddAll ?fs ?g)) \<noteq> Map.empty"
      by (rule n1)
    show "answerMarshal ''{}'' (history (deleteOrphans [''1'', ''2'', ''3''] (AddAll ?fs ?g))) =
            Inr ''{}''"
      by (simp only: answerMarshal_def)
  qed
  have c2: "actions (snd (Commit [''2'', ''1'', ''3''] (answerMarshal ''{}'') commitOK (AddAll ?fs ?g))) =
      actions (deleteOrphans [''2'', ''1'', ''3''] (AddAll ?fs ?g)) @
        [\<lparr>Action = Some (historyAction (AddAll ?fs ?g)),
          FilePath = Some (historyFile (AddAll ?fs ?g)),
          PreviousPath = None, Content = Some ''{}''\<rparr>]"
  proof (rule Commit_actions_appended)
    show "actions (deleteOrphans [''2'', ''1'', ''3''] (AddAll ?fs ?g)) \<noteq> []"
      unfolding a2 by simp
    show "history (deleteOrphans [''2'', ''1'', ''3''] (AddAll ?fs ?g)) \<noteq> Map.empty"
      by (rule n2)
    show "answerMarshal ''{}'' (history (deleteOrphans [''2'', ''1'', ''3''] (AddAll ?fs ?g))) =
            Inr ''{}''"
      by (simp only: answerMarshal_def)
  qed
  show ?thesis
    unfolding c1 c2 a1 a2 f by simp
qed

section \<open>Two runs in succession\<close>

text \<open>
  C5 (as amended). A first run starts from a loaded history whose records are stored
  under their own id, with no action pending, adds blobs of pairwise distinct ids, at
  least one unless the history is empty, and completes: \<open>Commit\<close> returns nil, the sweep
  having visited every key once. Suppose the history it leaves, if it is written, reads
  back without loss: what \<open>Unmarshal\<close> makes of the text of \<open>Marshal\<close> is the
  projection of that history on the persisted fields. Then the history the next run
  loads is that projection, and a second run that adds the same blobs to it appends no
  action, its sweep (in whatever order) deletes nothing, and \<open>Commit\<close> returns nil
  without sending a request: the client is as it was.

  The condition on the blobs is needed. A first run that adds no blob to a history that
  is not empty sends the Delete actions alone, without an action for the history file;
  the next run loads the history the first one loaded and sends the same Delete actions
  again.
\<close>

theorem second_run_commits_nothing:
  assumes wf: "wf_History H"
    and load: "history g = persistedHistory H"
    and fresh: "actions g = []"
    and ids: "distinct (map UID fs)"
    and some: "fs = [] \<longrightarrow> H = Map.empty"
    and o1: "distinct o1" "set o1 = dom (history (AddAll fs g))"
    and completes: "fst (Commit o1 Marshal CreateCommit (AddAll fs g)) = None"
    and lossless:
      "\<forall>data. Marshal (history (snd (Commit o1 Marshal CreateCommit (AddAll fs g)))) = Inr data \<longrightarrow>
         Unmarshal data Map.empty =
           Inr (persistedHistory (history (snd (Commit o1 Marshal CreateCommit (AddAll fs g)))))"
  shows "nextHistory Unmarshal g (Commit o1 Marshal CreateCommit (AddAll fs g)) =
           Inr (persistedHistory (history (snd (Commit o1 Marshal CreateCommit (AddAll fs g))))) \<and>
         (\<forall>g2. history g2 =
                 persistedHistory (history (snd (Commit o1 Marshal CreateCommit (AddAll fs g)))) \<and>
               actions g2 = [] \<longrightarrow>
            actions (AddAll fs g2) = [] \<and>
            actions (deleteOrphans o2 (AddAll fs g2)) = [] \<and>
            Commit o2 Marshal' CreateCommit' (AddAll fs g2) =
              (None, deleteOrphans o2 (AddAll fs g2)) \<and>
            client (deleteOrphans o2 (AddAll fs g2)) = client g2)"
proof -
  let ?gA = "AddAll fs g"
  let ?g1 = "deleteOrphans o1 ?gA"
  let ?R1 = "Commit o1 Marshal CreateCommit ?gA"
  let ?H1 = "history (snd ?R1)"
  have wfg: "wf_History (history g)"
    using wf load by (simp add: wf_History_persistedHistory)
  have wfA: "wf_History (history ?gA)" using wfg by (rule wf_History_AddAll)
  have H1g: "?H1 = history ?g1" by (rule Commit_history)
  have H1: "?H1 = sweepHistory (history ?gA)"
    using deleteOrphans_all_keys [OF wfA o1] by (simp add: Commit_history)
  have acts: "actions ?g1 = actions ?gA @ sweepDeletes (history ?gA) o1"
    using deleteOrphans_wf [OF wfA o1(1)] by simp
  have unprocessed: "\<not> processed r" if "history g k = Some r" for k r
    using that load by (auto simp add: persistedHistory_def persisted_def)
  have fr: "client g = client ?gA" "historyFile g = historyFile ?gA"
    by (simp_all add: AddAll_frame)

  have "next": "nextHistory Unmarshal g ?R1 = Inr (persistedHistory ?H1)"
  proof (cases "actions ?g1 = []")
    case True
    have w: "historyWritten g ?R1 = None"
      using True fr(1) by (rule historyWritten_nothing_sent)
    from True acts have aA: "actions ?gA = []" and sw: "sweepDeletes (history ?gA) o1 = []"
      by simp_all
    from aA fresh have "actions ?gA = actions g" by simp
    then have p: "persistedHistory (history ?gA) = persistedHistory (history g)"
      by (rule AddAll_no_action)
    have allp: "processed f" if "history ?gA k = Some f" for k f
    proof -
      from that o1(2) have k: "k \<in> set o1" by auto
      from sw k that show ?thesis by (rule sweepDeletes_Nil_processed)
    qed
    have "sweepHistory (history ?gA) = history ?gA"
      using allp by (auto simp add: sweepHistory_def fun_eq_iff split: option.splits)
    with H1 p have "persistedHistory ?H1 = persistedHistory (history g)" by simp
    also have "\<dots> = history g" by (simp add: load persistedHistory_idem)
    finally show ?thesis by (simp add: nextHistory_def w)
  next
    case False
    have ne: "fs \<noteq> []"
    proof
      assume e: "fs = []"
      with some load have "history g = Map.empty" by (simp add: persistedHistory_def)
      with e fresh have "actions ?g1 = []"
        using acts by (simp add: sweepDeletes_empty)
      with False show False by simp
    qed
    from ne obtain r where r: "history ?gA (UID (last fs)) = Some r" "processed r"
      using AddAll_last_processed by blast
    have "history ?g1 (UID (last fs)) = Some r"
      using wfA r by (rule deleteOrphans_keeps_processed)
    then have hne: "history ?g1 \<noteq> Map.empty" by auto
    from historyWritten_sent [OF False hne completes fr]
    obtain data where d: "Marshal (history ?g1) = Inr data" "historyWritten g ?R1 = Some data"
      by blast
    from d(1) lossless have "Unmarshal data Map.empty = Inr (persistedHistory ?H1)"
      by (simp add: H1g)
    with d(2) show ?thesis by (simp add: nextHistory_def)
  qed

  have second: "actions (AddAll fs g2) = [] \<and>
            actions (deleteOrphans o2 (AddAll fs g2)) = [] \<and>
            Commit o2 Marshal' CreateCommit' (AddAll fs g2) =
              (None, deleteOrphans o2 (AddAll fs g2)) \<and>
            client (deleteOrphans o2 (AddAll fs g2)) = client g2"
    if h2: "history g2 = persistedHistory ?H1" and a2: "actions g2 = []" for g2
  proof -
    have present: "\<exists>r. history g2 (UID b) = Some r \<and> SHA256 r = SHA256 b"
      if "b \<in> set fs" for b
    proof -
      from AddAll_fingerprint [OF wfg ids that] obtain r
        where r: "history ?gA (UID b) = Some r" "SHA256 r = SHA256 b" "processed r"
        by blast
      then have "?H1 (UID b) = Some r" by (simp add: H1 sweepHistory_def)
      then have "history g2 (UID b) = Some (persisted r)"
        by (simp add: h2 persistedHistory_def)
      with r show ?thesis by (simp add: persisted_def)
    qed
    have keys: "k \<in> UID ` set fs" if "history g2 k = Some r" for k r
    proof (rule ccontr)
      assume out: "k \<notin> UID ` set fs"
      from that obtain r1 where r1: "?H1 k = Some r1"
        by (auto simp add: h2 persistedHistory_def)
      then have a: "history ?gA k = Some r1" and p: "processed r1"
        by (auto simp add: H1 sweepHistory_def split: option.splits if_splits)
      from a out have "history g k = Some r1" by (simp add: AddAll_other_keys)
      with unprocessed p show False by blast
    qed
    from present
    have pre: "\<forall>b \<in> set fs. \<exists>r. history g2 (UID b) = Some r \<and> SHA256 r = SHA256 b"
      by blast
    note same = AddAll_same_fingerprints [OF pre]
    have a: "actions (AddAll fs g2) = []" using same a2 by simp
    have allp: "processed f" if "history (AddAll fs g2) k = Some f" for k f
    proof -
      from that same have "history g2 k \<noteq> None" by (auto split: if_splits)
      then obtain r where r: "history g2 k = Some r" by blast
      then have "k \<in> UID ` set fs" by (rule keys)
      with same that r show ?thesis by auto
    qed
    have d: "deleteOrphans o2 (AddAll fs g2) = AddAll fs g2"
      by (rule deleteOrphans_all_processed) (rule allp)
    have b: "actions (deleteOrphans o2 (AddAll fs g2)) = []" by (simp add: d a)
    have c: "Commit o2 Marshal' CreateCommit' (AddAll fs g2) =
               (None, deleteOrphans o2 (AddAll fs g2))"
      using b by (rule Commit_nothing)
    have e: "client (deleteOrphans o2 (AddAll fs g2)) = client g2"
      by (simp add: deleteOrphans_frame AddAll_frame)
    from a b c e show ?thesis by simp
  qed
  from "next" second show ?thesis by blast
qed

theorem second_run_commits_nothing_witness:
  "wf_History [''go1'' \<mapsto> testFile ''go1'' ''/a.json'' ''111''] \<and>
   distinct (map UID [testFile ''go1'' ''/b.json'' ''222'', testFile ''go2'' ''/c.json'' ''333'']) \<and>
   set [''go1'', ''go2''] =
     dom (history (AddAll [testFile ''go1'' ''/b.json'' ''222'', testFile ''go2'' ''/c.json'' ''333'']
            (testGitlab (persistedHistory [''go1'' \<mapsto> testFile ''go1'' ''/a.json'' ''111''])
               FileUpdate))) \<and>
   fst (Commit [''go1'', ''go2''] (answerMarshal ''{}'') commitOK
          (AddAll [testFile ''go1'' ''/b.json'' ''222'', testFile ''go2'' ''/c.json'' ''333'']
             (testGitlab (persistedHistory [''go1'' \<mapsto> testFile ''go1'' ''/a.json'' ''111''])
                FileUpdate))) = None \<and>
   nextHistory
     (answerUnmarshal [''go1'' \<mapsto> testFile ''go1'' ''/b.json'' ''222'',
                       ''go2'' \<mapsto> testFile ''go2'' ''/c.json'' ''333''])
     (testGitlab (persistedHistory [''go1'' \<mapsto> testFile ''go1'' ''/a.json'' ''111'']) FileUpdate)
     (Commit [''go1'', ''go2''] (answerMarshal ''{}'') commitOK
        (AddAll [testFile ''go1'' ''/b.json'' ''222'', testFile ''go2'' ''/c.json'' ''333'']
           (testGitlab (persistedHistory [''go1'' \<mapsto> testFile ''go1'' ''/a.json'' ''111''])
              FileUpdate))) =
     Inr [''go1'' \<mapsto> testFile ''go1'' ''/b.json'' ''222'',
          ''go2'' \<mapsto> testFile ''go2'' ''/c.json'' ''333''] \<and>
   Commit [''go2'', ''go1''] (answerMarshal ''{}'') commitOK
     (AddAll [testFile ''go1'' ''/b.json'' ''222'', testFile ''go2'' ''/c.json'' ''333'']
        (testGitlab [''go1'' \<mapsto> testFile ''go1'' ''/b.json'' ''222'',
                     ''go2'' \<mapsto> testFile ''go2'' ''/c.json'' ''333''] FileUpdate)) =
     (None,
      testGitlab
        [''go1'' \<mapsto> (testFile ''go1'' ''/b.json'' ''222'')\<lparr>processed := True\<rparr>,
         ''go2'' \<mapsto> (testFile ''go2'' ''/c.json'' ''333'')\<lparr>processed := True\<rparr>]
        FileUpdate)"
proof -
  let ?H = "[''go1'' \<mapsto> testFile ''go1'' ''/a.json'' ''111'']"
  let ?fs = "[testFile ''go1'' ''/b.json'' ''222'', testFile ''go2'' ''/c.json'' ''333'']"
  let ?g = "testGitlab (persistedHistory ?H) FileUpdate"
  let ?X = "[''go1'' \<mapsto> testFile ''go1'' ''/b.json'' ''222'',
             ''go2'' \<mapsto> testFile ''go2'' ''/c.json'' ''333'']"
  let ?R1 = "Commit [''go1'', ''go2''] (answerMarshal ''{}'') commitOK (AddAll ?fs ?g)"
  let ?H1 = "history (snd ?R1)"
  let ?g2 = "testGitlab ?X FileUpdate"
  have wf: "wf_History ?H" by (simp add: wf_History_def testFile_def)
  have load: "history ?g = persistedHistory ?H" by (simp add: testGitlab_def)
  have fresh: "actions ?g = []" by (simp add: testGitlab_def)
  have ids: "distinct (map UID ?fs)" by (simp add: testFile_def)
  have some: "?fs = [] \<longrightarrow> ?H = Map.empty" by simp
  have o: "distinct [''go1'', ''go2'']" by simp
  have r0: "persistedHistory ?H = ?H"
    by (auto simp add: persistedHistory_def persisted_def testFile_def fun_eq_iff)
  have gA: "AddAll ?fs ?g =
      (testGitlab
        [''go1'' \<mapsto> (testFile ''go1'' ''/b.json'' ''222'')\<lparr>processed := True\<rparr>,
         ''go2'' \<mapsto> (testFile ''go2'' ''/c.json'' ''333'')\<lparr>processed := True\<rparr>]
        FileUpdate)
        \<lparr>actions :=
           [\<lparr>Action = Some FileMove, FilePath = Some ''/b.json'',
             PreviousPath = Some ''/a.json'', Content = Some []\<rparr>,
            \<lparr>Action = Some FileCreate, FilePath = Some ''/c.json'',
             PreviousPath = None, Content = Some []\<rparr>]\<rparr>"
    unfolding r0
    by (simp add: Add_def add_def moved_def modified_def testGitlab_def testFile_def)
  have s: "set [''go1'', ''go2''] = dom (history (AddAll ?fs ?g))"
    unfolding gA by (auto simp add: testGitlab_def)
  have completes: "fst ?R1 = None"
    by (simp add: Commit_def updateHistory_def Let_def answerMarshal_def commitOK_def)
  have H1: "?H1 = [''go1'' \<mapsto> (testFile ''go1'' ''/b.json'' ''222'')\<lparr>processed := True\<rparr>,
         ''go2'' \<mapsto> (testFile ''go2'' ''/c.json'' ''333'')\<lparr>processed := True\<rparr>]"
    unfolding Commit_history gA by (simp add: testGitlab_def testFile_def)
  have r: "persistedHistory ?H1 = ?X"
    unfolding H1 by (auto simp add: persistedHistory_def persisted_def testFile_def fun_eq_iff)
  have lossless: "\<forall>data. answerMarshal ''{}'' ?H1 = Inr data \<longrightarrow>
         answerUnmarshal ?X data Map.empty = Inr (persistedHistory ?H1)"
    by (simp only: r answerUnmarshal_def) simp
  note t = second_run_commits_nothing
             [where H = "?H" and g = "?g" and fs = "?fs" and ?o1.0 = "[''go1'', ''go2'']"
                and Marshal = "answerMarshal ''{}''" and CreateCommit = commitOK
                and Unmarshal = "answerUnmarshal ?X" and ?o2.0 = "[''go2'', ''go1'']"
                and Marshal' = "answerMarshal ''{}''" and CreateCommit' = commitOK,
              OF wf load fresh ids some o s completes lossless]
  have h2: "history ?g2 = persistedHistory ?H1 \<and> actions ?g2 = []"
    by (simp only: r) (simp add: testGitlab_def)
  from t have n: "nextHistory (answerUnmarshal ?X) ?g ?R1 = Inr (persistedHistory ?H1)"
    by (rule conjunct1)
  from t h2 have c: "Commit [''go2'', ''go1''] (answerMarshal ''{}'') commitOK (AddAll ?fs ?g2) =
      (None, deleteOrphans [''go2'', ''go1''] (AddAll ?fs ?g2))"
    by blast
  have e: "deleteOrphans [''go2'', ''go1''] (AddAll ?fs ?g2) =
      testGitlab
        [''go1'' \<mapsto> (testFile ''go1'' ''/b.json'' ''222'')\<lparr>processed := True\<rparr>,
         ''go2'' \<mapsto> (testFile ''go2'' ''/c.json'' ''333'')\<lparr>processed := True\<rparr>]
        FileUpdate"
    by (simp add: Add_def moved_def modified_def testGitlab_def testFile_def)
  from n have n': "nextHistory (answerUnmarshal ?X) ?g ?R1 = Inr ?X" by (simp only: r)
  from wf ids s completes n' c show ?thesis unfolding e by simp
qed

theorem second_run_repeats_deletes_counterexample:
  "fst (Commit [''go1''] (answerMarshal ''{}'') commitOK
     (AddAll [] (testGitlab [''go1'' \<mapsto> testFile ''go1'' ''/dev/null.json'' ''12345''] FileUpdate)))
     = None \<and>
   requests (client (snd (Commit [''go1''] (answerMarshal ''{}'') commitOK
     (AddAll [] (testGitlab [''go1'' \<mapsto> testFile ''go1'' ''/dev/null.json'' ''12345''] FileUpdate)))))
     = [(1, \<lparr>Branch = Some ''test'', CommitMessage = Some backupMessage,
              Actions = [\<lparr>Action = Some FileDelete, FilePath = Some ''/dev/null.json'',
                          PreviousPath = None, Content = None\<rparr>]\<rparr>)] \<and>
   history (snd (Commit [''go1''] (answerMarshal ''{}'') commitOK
     (AddAll [] (testGitlab [''go1'' \<mapsto> testFile ''go1'' ''/dev/null.json'' ''12345''] FileUpdate))))
     = Map.empty \<and>
   nextHistory (answerUnmarshal Map.empty)
     (testGitlab [''go1'' \<mapsto> testFile ''go1'' ''/dev/null.json'' ''12345''] FileUpdate)
     (Commit [''go1''] (answerMarshal ''{}'') commitOK
        (AddAll [] (testGitlab [''go1'' \<mapsto> testFile ''go1'' ''/dev/null.json'' ''12345''] FileUpdate)))
     = Inr [''go1'' \<mapsto> testFile ''go1'' ''/dev/null.json'' ''12345''] \<and>
   actions (snd (Commit [''go1''] (answerMarshal ''{}'') commitOK
     (AddAll [] (testGitlab [''go1'' \<mapsto> testFile ''go1'' ''/dev/null.json'' ''12345''] FileUpdate))))
     = [\<lparr>Action = Some FileDelete, FilePath = Some ''/dev/null.json'',
         PreviousPath = None, Content = None\<rparr>] \<and>
   actions (snd (Commit [''go1''] (answerMarshal ''{}'') commitOK
     (AddAll [] (testGitlab [''go1'' \<mapsto> testFile ''go1'' ''/dev/null.json'' ''12345''] FileUpdate))))
     \<noteq> []"
  by (simp add: Commit_def updateHistory_def Let_def nextHistory_def historyWritten_def
        answerMarshal_def commitOK_def testGitlab_def testFile_def)

end
